theory Spec2Isabelle
  imports
    Complex_Main
    "HOL-Library.Log_Nat"
    "HOL-Library.Char_ord"
    "HOL-Library.List_Lexorder"
    "HOL-Library.AList"
    "HOL-Library.Multiset"
begin

text \<open>
  A model of the recipe summarizer: for every line item of a recipe the cheapest supplier
  offer is selected (\<open>findLowestCostProduct\<close>, \<open>calculateRealCost\<close>), the costs are
  added up, the nutrient facts of the selected products are merged by name
  (\<open>aggregateNutrients\<close>), and the merged facts are returned under sorted keys
  (\<open>sortKeys\<close>, \<open>summarizeRecipe\<close>). The functions are TypeScript; the sections below give
  the numbers and objects of the language as far as the functions use them, then the
  data, the functions, and their properties. Line numbers refer to the source file of
  these functions.
\<close>

section \<open>JavaScript numbers\<close>

text \<open>
  Costs and nutrient amounts are JavaScript numbers: IEEE-754 binary64 values. A number
  is a finite value, one of the two infinities, or NaN. The finite values are carried as
  the reals they denote, and every arithmetic result is rounded to the nearest
  representable value, ties to even (\<open>round_double\<close>), overflowing to an infinity.
  The sign of zero is not tracked: the program only adds, multiplies and compares, and
  none of these tells \<open>-0\<close> from \<open>0\<close>.
\<close>

datatype number = Finite real | Infinity | NegInfinity | NaN

definition round_half_even :: "real \<Rightarrow> int" where
  "round_half_even q =
     (let f = \<lfloor>q\<rfloor>; d = q - of_int f
      in if d < 1 / 2 then f
         else if 1 / 2 < d then f + 1
         else if even f then f else f + 1)"

text \<open>\<open>ilog2 a\<close> is the binary exponent of a positive \<open>a\<close>: \<open>2 ^ e \<le> a < 2 ^ (e + 1)\<close>.\<close>

definition ilog2 :: "real \<Rightarrow> int" where
  "ilog2 a = (if 1 \<le> a then bitlen \<lfloor>a\<rfloor> - 1 else - bitlen (\<lceil>1 / a\<rceil> - 1))"

text \<open>
  Rounding to binary64: 53 significant bits, the exponent of normal numbers between
  \<open>-1022\<close> and \<open>1023\<close>, subnormal numbers at the spacing \<open>2 ^ -1074\<close>, and overflow
  to an infinity when the rounded magnitude reaches \<open>2 ^ 1024\<close>.
\<close>

definition round_double :: "real \<Rightarrow> number" where
  "round_double q =
     (if q = 0 then Finite 0
      else let a = \<bar>q\<bar>;
               e = max (ilog2 a) (- 1022);
               ulp = 2 powi (e - 52);
               r = of_int (round_half_even (a / ulp)) * ulp
           in if 2 powi 1024 \<le> r then (if 0 < q then Infinity else NegInfinity)
              else Finite (sgn q * r))"

text \<open>The operator \<open>+\<close> on numbers.\<close>

fun js_add :: "number \<Rightarrow> number \<Rightarrow> number" where
  "js_add (Finite a) (Finite b) = round_double (a + b)"
| "js_add NaN _ = NaN"
| "js_add _ NaN = NaN"
| "js_add Infinity NegInfinity = NaN"
| "js_add NegInfinity Infinity = NaN"
| "js_add Infinity _ = Infinity"
| "js_add _ Infinity = Infinity"
| "js_add NegInfinity _ = NegInfinity"
| "js_add _ NegInfinity = NegInfinity"

fun sign_of :: "number \<Rightarrow> real" where
  "sign_of (Finite a) = sgn a"
| "sign_of Infinity = 1"
| "sign_of NegInfinity = - 1"
| "sign_of NaN = 0"

definition inf_of_sign :: "real \<Rightarrow> number" where
  "inf_of_sign s = (if s = 0 then NaN else if 0 < s then Infinity else NegInfinity)"

text \<open>The operator \<open>*\<close> on numbers; an infinity times zero is NaN.\<close>

fun js_mul :: "number \<Rightarrow> number \<Rightarrow> number" where
  "js_mul (Finite a) (Finite b) = round_double (a * b)"
| "js_mul NaN _ = NaN"
| "js_mul _ NaN = NaN"
| "js_mul a b = inf_of_sign (sign_of a * sign_of b)"

text \<open>The comparisons \<open><\<close> and \<open><=\<close>: every comparison with NaN is false.\<close>

fun js_lt :: "number \<Rightarrow> number \<Rightarrow> bool" where
  "js_lt NaN _ = False"
| "js_lt _ NaN = False"
| "js_lt (Finite a) (Finite b) = (a < b)"
| "js_lt (Finite a) Infinity = True"
| "js_lt (Finite a) NegInfinity = False"
| "js_lt Infinity _ = False"
| "js_lt NegInfinity NegInfinity = False"
| "js_lt NegInfinity _ = True"

fun js_le :: "number \<Rightarrow> number \<Rightarrow> bool" where
  "js_le NaN _ = False"
| "js_le _ NaN = False"
| "js_le a b = (\<not> js_lt b a)"

section \<open>JavaScript objects used as string-keyed maps\<close>

text \<open>
  \<open>totalNutrients\<close> and the result of \<open>sortKeys\<close> are plain objects created by \<open>{}\<close>.
  Such an object is the list of its own properties in creation order; its prototype is
  \<open>Object.prototype\<close>, whose property names are inherited by every lookup
  \<open>object[key]\<close>.
\<close>

type_synonym 'v js_object = "(string \<times> 'v) list"

definition objectPrototypeKeys :: "string list" where
  "objectPrototypeKeys =
     [''constructor'', ''__defineGetter__'', ''__defineSetter__'', ''hasOwnProperty'',
      ''__lookupGetter__'', ''__lookupSetter__'', ''isPrototypeOf'',
      ''propertyIsEnumerable'', ''toString'', ''valueOf'', ''__proto__'',
      ''toLocaleString'']"

text \<open>
  The value of \<open>object[key]\<close>: an own property, a member inherited from
  \<open>Object.prototype\<close> (a function, or the prototype itself for \<open>__proto__\<close>: truthy,
  and without a \<open>quantityAmount\<close>), or \<open>undefined\<close>.
\<close>

datatype 'v js_lookup = Undefined | Inherited | Own 'v

definition js_get :: "'v js_object \<Rightarrow> string \<Rightarrow> 'v js_lookup" where
  "js_get obj key =
     (case map_of obj key of
        Some v \<Rightarrow> Own v
      | None \<Rightarrow> if key \<in> set objectPrototypeKeys then Inherited else Undefined)"

text \<open>
  The assignment \<open>object[key] = v\<close>: an existing own property keeps its place, a new one
  is created last. Assigning to \<open>__proto__\<close> calls the inherited setter and creates no
  own property.
\<close>

definition js_put :: "'v js_object \<Rightarrow> string \<Rightarrow> 'v \<Rightarrow> 'v js_object" where
  "js_put obj key v = (if key = ''__proto__'' then obj else AList.update key v obj)"

text \<open>
  Property enumeration order (\<open>Object.keys\<close>): the keys that are array indices
  (canonical decimal numerals below \<open>2 ^ 32 - 1\<close>) first, in ascending numeric order,
  then the other keys in creation order.
\<close>

definition isDigit :: "char \<Rightarrow> bool" where
  "isDigit c = (CHR ''0'' \<le> c \<and> c \<le> CHR ''9'')"

definition decimalValue :: "string \<Rightarrow> nat" where
  "decimalValue k = foldl (\<lambda>a c. 10 * a + (of_char c - 48)) 0 k"

definition isArrayIndex :: "string \<Rightarrow> bool" where
  "isArrayIndex k =
     (case k of
        [] \<Rightarrow> False
      | c # cs \<Rightarrow> list_all isDigit k \<and> (if c = CHR ''0'' then cs = [] else True)
                 \<and> decimalValue k < 4294967295)"

definition Object_keys :: "'v js_object \<Rightarrow> string list" where
  "Object_keys obj =
     (let ks = map fst obj
      in sort_key decimalValue (filter isArrayIndex ks) @ filter (\<lambda>k. \<not> isArrayIndex k) ks)"

section \<open>Data model\<close>

text \<open>
  The classes of the data model are declared in \<open>supporting-files/models\<close>, which is
  not among the files at hand; the records below follow the data model of the
  specification and carry the fields the functions read. Ingredients and supplier
  products are only handed to collaborators, so they stay type parameters \<open>'i\<close> and
  \<open>'sp\<close>.

  The one write of the program to an object it did not create itself,
  \<open>quantityAmount.uomAmount += ...\<close> in line 56, goes to a \<open>UnitOfMeasure\<close> object
  reached through a nutrient fact. These quantity objects live in a store, and a nutrient
  fact holds a reference to its quantity. Nothing in the program writes to a recipe, a
  line item, a product, or a field of a nutrient fact, so these are values; the unit of
  measure of a line item is only read and is carried by value too.
\<close>

text \<open>
  Modelled from the spec: \<open>UnitOfMeasure\<close>, with the dimension tag \<open>uomType\<close>, the unit
  identifier \<open>uomName\<close> and the numeric quantity \<open>uomAmount\<close>.
\<close>

record UnitOfMeasure =
  uomType :: string
  uomName :: string
  uomAmount :: number

text \<open>
  The store of quantity objects: the object at each reference, and the number of objects
  created so far (the references below it are in use).
\<close>

type_synonym ref = nat

record store =
  cells :: "ref \<Rightarrow> UnitOfMeasure"
  allocated :: nat

text \<open>
  Modelled from the spec: \<open>NutrientFact\<close>, with the merge key \<open>nutrientName\<close> and the
  quantity \<open>quantityAmount\<close>, here the reference of a \<open>UnitOfMeasure\<close> object.
\<close>

record NutrientFact =
  nutrientName :: string
  quantityAmount :: ref

text \<open>
  Modelled from the spec: \<open>Product\<close>, with its supplier products and its nutrient
  facts, in order.
\<close>

record 'sp Product =
  supplierProducts :: "'sp list"
  nutrientFacts :: "NutrientFact list"

text \<open>
  Modelled from the spec: \<open>RecipeLineItem\<close>, with the ingredient and the unit of
  measure required for costing, and \<open>Recipe\<close>, with its name and its line items in
  order.
\<close>

record 'i RecipeLineItem =
  ingredient :: 'i
  unitOfMeasure :: UnitOfMeasure

record 'i Recipe =
  recipeName :: string
  lineItems :: "'i RecipeLineItem list"

text \<open>The object returned by \<open>summarizeRecipe\<close> (line 82).\<close>

record RecipeSummary =
  cheapestCost :: number
  nutrientsAtCheapestCost :: "NutrientFact js_object"

text \<open>
  What a call can throw: the \<open>Error\<close> of \<open>findLowestCostProduct\<close> ("No products
  available for the given ingredient."), the \<open>TypeError\<close> of reading a property of
  \<open>undefined\<close>, and whatever a collaborator throws, with its message.
\<close>

datatype error = NoCandidatesError | TypeError | CollaboratorError string

section \<open>Collaborators\<close>

text \<open>
  The functions imported from \<open>supporting-files/data-access\<close> and
  \<open>supporting-files/helpers\<close> are not among the files at hand: they are parameters of
  the model, with the signatures the specification gives them. Each may throw (\<open>Inl\<close>
  with the message). \<open>GetNutrientFactInBaseUnits\<close> returns an object, so it runs on the
  store: it may create the quantity object it returns, or return one that exists.
\<close>

record ('i, 'sp) collaborators =
  GetProductsForIngredient :: "'i \<Rightarrow> string + 'sp Product list"
  GetBaseUoM :: "string \<Rightarrow> string + UnitOfMeasure"
  ConvertUnits :: "UnitOfMeasure \<Rightarrow> string \<Rightarrow> string \<Rightarrow> string + UnitOfMeasure"
  GetCostPerBaseUnit :: "'sp \<Rightarrow> string + number"
  GetNutrientFactInBaseUnits :: "store \<Rightarrow> NutrientFact \<Rightarrow> (string + NutrientFact) \<times> store"

text \<open>
  Two kinds of nutrient helper. The first creates the fact it returns: \<open>conv\<close> computes
  the name and the quantity from those of the incoming fact (or throws), and the quantity
  is a new object, which takes the next free reference. The second returns the fact it
  is given, the same object.
\<close>

definition allocate :: "store \<Rightarrow> UnitOfMeasure \<Rightarrow> store" where
  "allocate s u = s\<lparr>cells := (cells s)(allocated s := u), allocated := Suc (allocated s)\<rparr>"

definition allocatingHelper ::
  "(string \<times> UnitOfMeasure \<Rightarrow> string + string \<times> UnitOfMeasure) \<Rightarrow>
   store \<Rightarrow> NutrientFact \<Rightarrow> (string + NutrientFact) \<times> store" where
  "allocatingHelper conv s f =
     (case conv (nutrientName f, cells s (quantityAmount f)) of
        Inl m \<Rightarrow> (Inl m, s)
      | Inr (n, u) \<Rightarrow> (Inr \<lparr>nutrientName = n, quantityAmount = allocated s\<rparr>, allocate s u))"

definition sameObjectHelper :: "store \<Rightarrow> NutrientFact \<Rightarrow> (string + NutrientFact) \<times> store" where
  "sameObjectHelper s f = (Inr f, s)"

section \<open>The functions of the program\<close>

definition calculateRealCost ::
  "('i, 'sp) collaborators \<Rightarrow> UnitOfMeasure \<Rightarrow> number \<Rightarrow> error + number" where
  "calculateRealCost E realUoM basePrice =
     (case GetBaseUoM E (uomType realUoM) of
        Inl m \<Rightarrow> Inl (CollaboratorError m)
      | Inr baseUnitOfMeasure \<Rightarrow>
          (case ConvertUnits E realUoM (uomName baseUnitOfMeasure) (uomType baseUnitOfMeasure) of
             Inl m \<Rightarrow> Inl (CollaboratorError m)
           | Inr convertedUoM \<Rightarrow> Inr (js_mul basePrice (uomAmount convertedUoM))))"

text \<open>The real cost of one supplier offer for a line item (lines 17 and 18).\<close>

definition offerCost ::
  "('i, 'sp) collaborators \<Rightarrow> 'i RecipeLineItem \<Rightarrow> 'sp \<Rightarrow> error + number" where
  "offerCost E lineItem supplierProduct =
     (case GetCostPerBaseUnit E supplierProduct of
        Inl m \<Rightarrow> Inl (CollaboratorError m)
      | Inr baseCost \<Rightarrow> calculateRealCost E (unitOfMeasure lineItem) baseCost)"

text \<open>
  The inner loop of \<open>findLowestCostProduct\<close> over the supplier products of one product,
  on the pair \<open>(lowestCostProduct, lowestCost)\<close>; \<open>None\<close> is \<open>null\<close>.
\<close>

fun supplierLoop ::
  "('i, 'sp) collaborators \<Rightarrow> 'i RecipeLineItem \<Rightarrow> 'sp Product \<Rightarrow> 'sp list \<Rightarrow>
   'sp Product option \<times> number \<Rightarrow> error + 'sp Product option \<times> number" where
  "supplierLoop E lineItem product [] acc = Inr acc"
| "supplierLoop E lineItem product (supplierProduct # rest) (lowestCostProduct, lowestCost) =
     (case offerCost E lineItem supplierProduct of
        Inl e \<Rightarrow> Inl e
      | Inr realCost \<Rightarrow>
          supplierLoop E lineItem product rest
            (if js_lt realCost lowestCost then (Some product, realCost)
             else (lowestCostProduct, lowestCost)))"

text \<open>The outer loop over the products.\<close>

fun productLoop ::
  "('i, 'sp) collaborators \<Rightarrow> 'i RecipeLineItem \<Rightarrow> 'sp Product list \<Rightarrow>
   'sp Product option \<times> number \<Rightarrow> error + 'sp Product option \<times> number" where
  "productLoop E lineItem [] acc = Inr acc"
| "productLoop E lineItem (product # rest) acc =
     (case supplierLoop E lineItem product (supplierProducts product) acc of
        Inl e \<Rightarrow> Inl e
      | Inr acc' \<Rightarrow> productLoop E lineItem rest acc')"

definition findLowestCostProduct ::
  "('i, 'sp) collaborators \<Rightarrow> 'i RecipeLineItem \<Rightarrow> error + 'sp Product \<times> number" where
  "findLowestCostProduct E lineItem =
     (case GetProductsForIngredient E (ingredient lineItem) of
        Inl m \<Rightarrow> Inl (CollaboratorError m)
      | Inr products \<Rightarrow>
          (case productLoop E lineItem products (None, Infinity) of
             Inl e \<Rightarrow> Inl e
           | Inr (None, lowestCost) \<Rightarrow> Inl NoCandidatesError
           | Inr (Some lowestCostProduct, lowestCost) \<Rightarrow> Inr (lowestCostProduct, lowestCost)))"

text \<open>
  The statement \<open>x.uomAmount += y.uomAmount\<close> on two quantity objects: both amounts are
  read, then the sum is written to \<open>x\<close>.
\<close>

definition addAmount :: "store \<Rightarrow> ref \<Rightarrow> ref \<Rightarrow> store" where
  "addAmount s x y =
     s\<lparr>cells := (cells s)
          (x := (cells s x)\<lparr>uomAmount := js_add (uomAmount (cells s x)) (uomAmount (cells s y))\<rparr>)\<rparr>"

text \<open>
  \<open>aggregateNutrients\<close>: the \<open>forEach\<close> over the new facts. The test of line 55 is a
  lookup under \<open>fact.nutrientName\<close> (\<open>fact\<close> is \<open>newFact\<close> here); a stored fact is an object and truthy, an inherited
  member is truthy too, and then line 56 reads \<open>uomAmount\<close> of \<open>undefined\<close>.
\<close>

fun aggregateNutrients ::
  "('i, 'sp) collaborators \<Rightarrow> NutrientFact js_object \<Rightarrow> NutrientFact list \<Rightarrow> store \<Rightarrow>
   (error + NutrientFact js_object) \<times> store" where
  "aggregateNutrients E existingNutrientFacts [] s = (Inr existingNutrientFacts, s)"
| "aggregateNutrients E existingNutrientFacts (newFact # rest) s =
     (case GetNutrientFactInBaseUnits E s newFact of
        (Inl m, s1) \<Rightarrow> (Inl (CollaboratorError m), s1)
      | (Inr baseUnitFact, s1) \<Rightarrow>
          (case js_get existingNutrientFacts (nutrientName newFact) of
             Own entry \<Rightarrow>
               aggregateNutrients E existingNutrientFacts rest
                 (addAmount s1 (quantityAmount entry) (quantityAmount baseUnitFact))
           | Inherited \<Rightarrow> (Inl TypeError, s1)
           | Undefined \<Rightarrow>
               aggregateNutrients E
                 (js_put existingNutrientFacts (nutrientName newFact) baseUnitFact) rest s1))"

text \<open>
  \<open>sortKeys\<close>: \<open>Object.keys(object).sort()\<close> orders the keys as strings, and the
  \<open>reduce\<close> assigns them one by one to a new object. Every key comes from
  \<open>Object.keys\<close>, so \<open>object[key]\<close> is an own property.
\<close>

definition sortKeys :: "'v js_object \<Rightarrow> 'v js_object" where
  "sortKeys object =
     foldl (\<lambda>result key. case map_of object key of
                             Some v \<Rightarrow> js_put result key v
                           | None \<Rightarrow> result)
       [] (sort (Object_keys object))"

text \<open>
  \<open>summarizeRecipe\<close>: the \<open>forEach\<close> over the line items on
  \<open>(totalCost, totalNutrients)\<close>, then the summary.
\<close>

fun lineItemLoop ::
  "('i, 'sp) collaborators \<Rightarrow> 'i RecipeLineItem list \<Rightarrow> number \<times> NutrientFact js_object \<Rightarrow>
   store \<Rightarrow> (error + number \<times> NutrientFact js_object) \<times> store" where
  "lineItemLoop E [] acc s = (Inr acc, s)"
| "lineItemLoop E (lineItem # rest) (totalCost, totalNutrients) s =
     (case findLowestCostProduct E lineItem of
        Inl e \<Rightarrow> (Inl e, s)
      | Inr (product, cost) \<Rightarrow>
          (case aggregateNutrients E totalNutrients (nutrientFacts product) s of
             (Inl e, s') \<Rightarrow> (Inl e, s')
           | (Inr totalNutrients', s') \<Rightarrow>
               lineItemLoop E rest (js_add totalCost cost, totalNutrients') s'))"

definition summarizeRecipe ::
  "('i, 'sp) collaborators \<Rightarrow> 'i Recipe \<Rightarrow> store \<Rightarrow> (error + RecipeSummary) \<times> store" where
  "summarizeRecipe E recipe s =
     (case lineItemLoop E (lineItems recipe) (Finite 0, []) s of
        (Inl e, s') \<Rightarrow> (Inl e, s')
      | (Inr (totalCost, totalNutrients), s') \<Rightarrow>
          (Inr \<lparr>cheapestCost = totalCost,
                nutrientsAtCheapestCost = sortKeys totalNutrients\<rparr>, s'))"

section \<open>Notions used to state the properties\<close>

text \<open>
  The supplier offers of a product list in the order the two nested loops of
  \<open>findLowestCostProduct\<close> visit them: products in catalogue order, and the supplier
  products of each product in order.
\<close>

definition offersOf :: "'sp Product list \<Rightarrow> ('sp Product \<times> 'sp) list" where
  "offersOf products = concat (map (\<lambda>p. map (Pair p) (supplierProducts p)) products)"

text \<open>The two nested loops as one loop over the offers.\<close>

fun offerLoop ::
  "('i, 'sp) collaborators \<Rightarrow> 'i RecipeLineItem \<Rightarrow> ('sp Product \<times> 'sp) list \<Rightarrow>
   'sp Product option \<times> number \<Rightarrow> error + 'sp Product option \<times> number" where
  "offerLoop E lineItem [] acc = Inr acc"
| "offerLoop E lineItem ((product, supplierProduct) # rest) (lowestCostProduct, lowestCost) =
     (case offerCost E lineItem supplierProduct of
        Inl e \<Rightarrow> Inl e
      | Inr realCost \<Rightarrow>
          offerLoop E lineItem rest
            (if js_lt realCost lowestCost then (Some product, realCost)
             else (lowestCostProduct, lowestCost)))"

text \<open>A sequence of \<open>aggregateNutrients\<close> calls on one running object, one call per group of facts.\<close>

fun mergeGroups ::
  "('i, 'sp) collaborators \<Rightarrow> NutrientFact js_object \<Rightarrow> NutrientFact list list \<Rightarrow> store \<Rightarrow>
   (error + NutrientFact js_object) \<times> store" where
  "mergeGroups E totals [] s = (Inr totals, s)"
| "mergeGroups E totals (facts # groups) s =
     (case aggregateNutrients E totals facts s of
        (Inl e, s') \<Rightarrow> (Inl e, s')
      | (Inr totals', s') \<Rightarrow> mergeGroups E totals' groups s')"

text \<open>Every key of the object is the \<open>nutrientName\<close> of the fact stored under it.\<close>

definition keysMatch :: "NutrientFact js_object \<Rightarrow> bool" where
  "keysMatch obj = list_all (\<lambda>(key, f). nutrientName f = key) obj"

subsection \<open>The merge on values\<close>

text \<open>
  What a fact or an object holds when its quantities are read through the store: the
  content of a fact is its name and its quantity, the view of an object lists key and
  content of every entry.
\<close>

type_synonym content = "string \<times> UnitOfMeasure"

definition contentOf :: "(ref \<Rightarrow> UnitOfMeasure) \<Rightarrow> NutrientFact \<Rightarrow> content" where
  "contentOf c f = (nutrientName f, c (quantityAmount f))"

definition view :: "store \<Rightarrow> NutrientFact js_object \<Rightarrow> content js_object" where
  "view s obj = map (\<lambda>(key, f). (key, contentOf (cells s) f)) obj"

text \<open>
  The merge of \<open>aggregateNutrients\<close> written on contents, where adding to an entry
  replaces its quantity by one with the new amount. The program computes this when every
  fact returned by the helper has a quantity object of its own (shown below).
\<close>

fun aggregateContents ::
  "(content \<Rightarrow> string + content) \<Rightarrow> content js_object \<Rightarrow> content list \<Rightarrow>
   error + content js_object" where
  "aggregateContents conv existing [] = Inr existing"
| "aggregateContents conv existing (newContent # rest) =
     (case conv newContent of
        Inl m \<Rightarrow> Inl (CollaboratorError m)
      | Inr baseUnitContent \<Rightarrow>
          (case js_get existing (fst newContent) of
             Own entry \<Rightarrow>
               aggregateContents conv
                 (AList.update (fst newContent)
                    (fst entry,
                     (snd entry)\<lparr>uomAmount :=
                        js_add (uomAmount (snd entry)) (uomAmount (snd baseUnitContent))\<rparr>)
                    existing)
                 rest
           | Inherited \<Rightarrow> Inl TypeError
           | Undefined \<Rightarrow>
               aggregateContents conv (js_put existing (fst newContent) baseUnitContent) rest))"

text \<open>The loop over the line items and the summary, on contents.\<close>

fun lineItemContents ::
  "('i, 'sp) collaborators \<Rightarrow> (content \<Rightarrow> string + content) \<Rightarrow> (ref \<Rightarrow> UnitOfMeasure) \<Rightarrow>
   'i RecipeLineItem list \<Rightarrow> number \<times> content js_object \<Rightarrow> error + number \<times> content js_object" where
  "lineItemContents E conv c [] acc = Inr acc"
| "lineItemContents E conv c (lineItem # rest) (totalCost, totals) =
     (case findLowestCostProduct E lineItem of
        Inl e \<Rightarrow> Inl e
      | Inr (product, cost) \<Rightarrow>
          (case aggregateContents conv totals (map (contentOf c) (nutrientFacts product)) of
             Inl e \<Rightarrow> Inl e
           | Inr totals' \<Rightarrow> lineItemContents E conv c rest (js_add totalCost cost, totals')))"

definition summarizeContents ::
  "('i, 'sp) collaborators \<Rightarrow> (content \<Rightarrow> string + content) \<Rightarrow> (ref \<Rightarrow> UnitOfMeasure) \<Rightarrow>
   'i Recipe \<Rightarrow> error + number \<times> content js_object" where
  "summarizeContents E conv c recipe =
     (case lineItemContents E conv c (lineItems recipe) (Finite 0, []) of
        Inl e \<Rightarrow> Inl e
      | Inr (totalCost, totals) \<Rightarrow> Inr (totalCost, sortKeys totals))"

text \<open>
  The quantity objects of a running object were all created since the store had \<open>n0\<close>
  objects, and no two entries share one.
\<close>

definition ownedFrom :: "nat \<Rightarrow> store \<Rightarrow> NutrientFact js_object \<Rightarrow> bool" where
  "ownedFrom n0 s obj \<longleftrightarrow>
     n0 \<le> allocated s
     \<and> list_all (\<lambda>(key, f). n0 \<le> quantityAmount f \<and> quantityAmount f < allocated s) obj
     \<and> distinct (map (quantityAmount \<circ> snd) obj)"

text \<open>The facts of every winning product refer to quantities among the first \<open>n0\<close>.\<close>

definition winnersBelow :: "nat \<Rightarrow> ('i, 'sp) collaborators \<Rightarrow> 'i RecipeLineItem list \<Rightarrow> bool" where
  "winnersBelow n0 E lis \<longleftrightarrow>
     (\<forall>li \<in> set lis. \<forall>p c. findLowestCostProduct E li = Inr (p, c) \<longrightarrow>
        list_all (\<lambda>f. quantityAmount f < n0) (nutrientFacts p))"

subsection \<open>Total amounts\<close>





text \<open>
  Amounts added one after the other with \<open>+\<close>, to an amount already recorded or else
  starting with the first of them.
\<close>

fun sumFrom :: "number option \<Rightarrow> number list \<Rightarrow> number option" where
  "sumFrom None [] = None"
| "sumFrom None (b # bs) = Some (foldl js_add b bs)"
| "sumFrom (Some a) bs = Some (foldl js_add a bs)"

subsection \<open>Keys\<close>

text \<open>
  The own keys of an object are pairwise different and none of them is a property name of
  \<open>Object.prototype\<close>; the objects built by \<open>aggregateNutrients\<close> are of this kind.
\<close>

definition plainKeys :: "'v js_object \<Rightarrow> bool" where
  "plainKeys obj \<longleftrightarrow> distinct (map fst obj) \<and> list_all (\<lambda>k. k \<notin> set objectPrototypeKeys) (map fst obj)"

section \<open>Example collaborators and data\<close>

text \<open>
  Collaborators for the examples: ingredients are named by strings, a supplier product is
  given by its cost per base unit, every unit is already the base unit of its dimension,
  and the catalogue and the nutrient helper are chosen by each example.
\<close>

definition exampleCollaborators ::
  "(string \<Rightarrow> number Product list) \<Rightarrow>
   (store \<Rightarrow> NutrientFact \<Rightarrow> (string + NutrientFact) \<times> store) \<Rightarrow>
   (string, number) collaborators" where
  "exampleCollaborators catalogue helper =
     \<lparr>GetProductsForIngredient = (\<lambda>i. Inr (catalogue i)),
      GetBaseUoM = (\<lambda>t. Inr \<lparr>uomType = t, uomName = ''base'', uomAmount = Finite 1\<rparr>),
      ConvertUnits = (\<lambda>u n t. Inr (u\<lparr>uomType := t, uomName := n\<rparr>)),
      GetCostPerBaseUnit = Inr,
      GetNutrientFactInBaseUnits = helper\<rparr>"

definition grams :: "number \<Rightarrow> UnitOfMeasure" where
  "grams a = \<lparr>uomType = ''mass'', uomName = ''grams'', uomAmount = a\<rparr>"

definition lineItemOf :: "string \<Rightarrow> number \<Rightarrow> string RecipeLineItem" where
  "lineItemOf i a = \<lparr>ingredient = i, unitOfMeasure = grams a\<rparr>"

definition productOf :: "number list \<Rightarrow> NutrientFact list \<Rightarrow> number Product" where
  "productOf costs facts = \<lparr>supplierProducts = costs, nutrientFacts = facts\<rparr>"

text \<open>A store holding the given quantities at the references \<open>0, 1, ...\<close>.\<close>

definition storeOf :: "UnitOfMeasure list \<Rightarrow> store" where
  "storeOf us =
     \<lparr>cells = (\<lambda>r. if r < length us then us ! r else grams (Finite 0)),
      allocated = length us\<rparr>"

text \<open>Two products for flour; the cheapest cost per base unit, 2, is offered twice.\<close>

definition tieCatalogue :: "string \<Rightarrow> number Product list" where
  "tieCatalogue i =
     (if i = ''flour'' then [productOf [Finite 3, Finite 2] [], productOf [Finite 2] []] else [])"

text \<open>A product with two offers; the cost per base unit of the first is NaN.\<close>

definition nanCatalogue :: "string \<Rightarrow> number Product list" where
  "nanCatalogue i = (if i = ''flour'' then [productOf [NaN, Finite 5] []] else [])"

text \<open>A product whose only offer has an infinite cost per base unit.\<close>

definition infinityCatalogue :: "string \<Rightarrow> number Product list" where
  "infinityCatalogue i = (if i = ''flour'' then [productOf [Infinity] []] else [])"

text \<open>
  Two products for flour at 3 and 2 per base unit, one for milk at 1; the cheaper flour
  and the milk each carry a protein fact, of 5 and 10 grams in the store below.
\<close>

definition scenarioCatalogue :: "string \<Rightarrow> number Product list" where
  "scenarioCatalogue i =
     (if i = ''flour''
      then [productOf [Finite 3] [],
            productOf [Finite 2] [\<lparr>nutrientName = ''Protein'', quantityAmount = 0\<rparr>]]
      else if i = ''milk''
      then [productOf [Finite 1] [\<lparr>nutrientName = ''Protein'', quantityAmount = 1\<rparr>]]
      else [])"

definition scenarioRecipe :: "string Recipe" where
  "scenarioRecipe =
     \<lparr>recipeName = ''bread'',
      lineItems = [lineItemOf ''flour'' (Finite 2), lineItemOf ''milk'' (Finite 3)]\<rparr>"

definition scenarioStore :: store where
  "scenarioStore = storeOf [grams (Finite 5), grams (Finite 10)]"

text \<open>A recipe whose second ingredient has no product.\<close>

definition saltRecipe :: "string Recipe" where
  "saltRecipe =
     \<lparr>recipeName = ''salted bread'',
      lineItems = [lineItemOf ''flour'' (Finite 2), lineItemOf ''salt'' (Finite 1)]\<rparr>"

text \<open>Conversions for \<open>allocatingHelper\<close> that change names: every name, or one name only.\<close>

definition renameTo :: "string \<Rightarrow> string \<times> UnitOfMeasure \<Rightarrow> string + string \<times> UnitOfMeasure" where
  "renameTo n = (\<lambda>(_, u). Inr (n, u))"

definition renameOnly ::
  "string \<Rightarrow> string \<Rightarrow> string \<times> UnitOfMeasure \<Rightarrow> string + string \<times> UnitOfMeasure" where
  "renameOnly old new = (\<lambda>(n, u). Inr (if n = old then new else n, u))"

text \<open>A running object with one entry, whose quantity is the first object of the store.\<close>

definition proteinEntry :: "NutrientFact js_object" where
  "proteinEntry = [(''Protein'', \<lparr>nutrientName = ''Protein'', quantityAmount = 0\<rparr>)]"

text \<open>A product whose nutrient names are decimal numerals.\<close>

definition numberedCatalogue :: "string \<Rightarrow> number Product list" where
  "numberedCatalogue i =
     (if i = ''flour''
      then [productOf [Finite 2]
              [\<lparr>nutrientName = ''9'', quantityAmount = 0\<rparr>,
               \<lparr>nutrientName = ''10'', quantityAmount = 1\<rparr>]]
      else [])"

definition numberedRecipe :: "string Recipe" where
  "numberedRecipe = \<lparr>recipeName = ''bread'', lineItems = [lineItemOf ''flour'' (Finite 2)]\<rparr>"




section \<open>Facts about numbers\<close>

text \<open>Evaluation of \<open>bitlen\<close> on numerals.\<close>

lemma bitlen_one [simp]: "bitlen 1 = 1"
  by (simp add: compute_bitlen)

lemma bitlen_Bit0 [simp]: "bitlen (numeral (Num.Bit0 k)) = bitlen (numeral k) + 1"
  by (subst compute_bitlen) simp

lemma bitlen_Bit1 [simp]: "bitlen (numeral (Num.Bit1 k)) = bitlen (numeral k) + 1"
  by (subst compute_bitlen) simp

lemmas round_double_eval = round_double_def ilog2_def round_half_even_def Let_def

text \<open>The comparison \<open><\<close> is a strict order in which NaN is related to nothing.\<close>

lemma js_lt_irrefl [simp]: "\<not> js_lt a a"
  by (cases a) auto

lemma js_lt_trans: "js_lt a b \<Longrightarrow> js_lt b c \<Longrightarrow> js_lt a c"
  by (cases a; cases b; cases c) auto

lemma js_lt_not_NaN: "js_lt a b \<Longrightarrow> a \<noteq> NaN \<and> b \<noteq> NaN"
  by (cases a; cases b) auto

lemma js_le_iff: "js_le a b \<longleftrightarrow> a \<noteq> NaN \<and> b \<noteq> NaN \<and> \<not> js_lt b a"
  by (cases a; cases b) auto

lemma js_lt_cases: "a \<noteq> NaN \<Longrightarrow> b \<noteq> NaN \<Longrightarrow> js_lt a b \<or> a = b \<or> js_lt b a"
  by (cases a; cases b) auto

lemma not_js_lt_trans:
  "b \<noteq> NaN \<Longrightarrow> \<not> js_lt a b \<Longrightarrow> \<not> js_lt b c \<Longrightarrow> \<not> js_lt a c"
  by (cases a; cases b; cases c) auto

lemma js_lt_not_lt_trans:
  "js_lt a b \<Longrightarrow> \<not> js_lt c b \<Longrightarrow> c \<noteq> NaN \<Longrightarrow> js_lt a c"
  by (cases a; cases b; cases c) auto

lemma js_add_commute: "js_add a b = js_add b a"
  by (cases a; cases b) (auto simp: add.commute)



section \<open>The selection loop\<close>

lemma offerLoop_append:
  "offerLoop E li (xs @ ys) acc =
     (case offerLoop E li xs acc of Inl e \<Rightarrow> Inl e | Inr acc' \<Rightarrow> offerLoop E li ys acc')"
  by (induction E li xs acc rule: offerLoop.induct) (auto split: sum.splits)

lemma supplierLoop_offerLoop:
  "supplierLoop E li p sps acc = offerLoop E li (map (Pair p) sps) acc"
  by (induction E li p sps acc rule: supplierLoop.induct) (auto split: sum.splits)

lemma productLoop_offerLoop:
  "productLoop E li ps acc = offerLoop E li (offersOf ps) acc"
proof (induction ps arbitrary: acc)
  case Nil
  then show ?case by (simp add: offersOf_def)
next
  case (Cons p ps)
  have "offersOf (p # ps) = map (Pair p) (supplierProducts p) @ offersOf ps"
    by (simp add: offersOf_def)
  then show ?case
    using Cons by (simp add: offerLoop_append supplierLoop_offerLoop split: sum.splits)
qed

lemma offerLoop_costs_defined:
  "offerLoop E li os acc = Inr r \<Longrightarrow> (p, sp) \<in> set os \<Longrightarrow> \<exists>c. offerCost E li sp = Inr c"
  by (induction E li os acc rule: offerLoop.induct) (auto split: sum.splits)

lemma offerLoop_returns:
  "\<forall>(p, sp) \<in> set os. \<exists>c. offerCost E li sp = Inr c \<Longrightarrow>
   \<exists>r. offerLoop E li os acc = Inr r"
proof (induction os arbitrary: acc)
  case Nil
  then show ?case by simp
next
  case (Cons x os)
  obtain p sp where x: "x = (p, sp)" by (cases x)
  obtain lp lc where acc: "acc = (lp, lc)" by (cases acc)
  from Cons.prems x obtain c where c: "offerCost E li sp = Inr c" by auto
  from Cons.prems have rest: "\<forall>(p, sp) \<in> set os. \<exists>c. offerCost E li sp = Inr c" by simp
  show ?case
    using Cons.IH[OF rest] by (simp add: x acc c)
qed

lemma offerLoop_throws:
  "offerLoop E li os acc = Inl e \<Longrightarrow> \<exists>p sp. (p, sp) \<in> set os \<and> offerCost E li sp = Inl e"
  by (induction E li os acc rule: offerLoop.induct) (auto split: sum.splits)

lemma offerLoop_minimum:
  "offerLoop E li os (lp, lc) = Inr (rp, rc) \<Longrightarrow> lc \<noteq> NaN \<Longrightarrow>
   rc \<noteq> NaN \<and> \<not> js_lt lc rc \<and>
   (\<forall>(p, sp) \<in> set os. \<forall>c. offerCost E li sp = Inr c \<longrightarrow> \<not> js_lt c rc)"
proof (induction E li os "(lp, lc)" arbitrary: lp lc rule: offerLoop.induct)
  case (1 E lineItem)
  then show ?case by simp
next
  case (2 E lineItem product supplierProduct rest lowestCostProduct lowestCost)
  from "2.prems" obtain c where c: "offerCost E lineItem supplierProduct = Inr c"
    by (auto split: sum.splits)
  show ?case
  proof (cases "js_lt c lowestCost")
    case True
    then have cn: "c \<noteq> NaN" using js_lt_not_NaN by blast
    from "2.prems" c True
    have run: "offerLoop E lineItem rest (Some product, c) = Inr (rp, rc)" by simp
    from "2.hyps"[OF c _ run cn] True
    have ih: "rc \<noteq> NaN" "\<not> js_lt c rc"
      "\<forall>(p, sp) \<in> set rest. \<forall>c. offerCost E lineItem sp = Inr c \<longrightarrow> \<not> js_lt c rc"
      by auto
    have "\<not> js_lt lowestCost rc"
      using True ih(2) js_lt_trans by blast
    then show ?thesis using ih c by auto
  next
    case False
    from "2.prems" c False
    have run: "offerLoop E lineItem rest (lowestCostProduct, lowestCost) = Inr (rp, rc)" by simp
    from "2.hyps"[OF c _ run "2.prems"(2)] False
    have ih: "rc \<noteq> NaN" "\<not> js_lt lowestCost rc"
      "\<forall>(p, sp) \<in> set rest. \<forall>c. offerCost E lineItem sp = Inr c \<longrightarrow> \<not> js_lt c rc"
      by auto
    have "\<not> js_lt c rc"
      using False ih(2) "2.prems"(2) not_js_lt_trans by blast
    then show ?thesis using ih c by auto
  qed
qed

lemma offerLoop_first:
  "offerLoop E li os (lp, lc) = Inr (rp, rc) \<Longrightarrow> lc \<noteq> NaN \<Longrightarrow>
   (rp = lp \<and> rc = lc \<and> (\<forall>(p, sp) \<in> set os. \<forall>c. offerCost E li sp = Inr c \<longrightarrow> \<not> js_lt c lc))
   \<or> (js_lt rc lc \<and>
       (\<exists>p sp. find (\<lambda>(p', sp'). offerCost E li sp' = Inr rc) os = Some (p, sp) \<and> rp = Some p))"
proof (induction E li os "(lp, lc)" arbitrary: lp lc rule: offerLoop.induct)
  case (1 E lineItem)
  then show ?case by simp
next
  case (2 E lineItem product supplierProduct rest lowestCostProduct lowestCost)
  from "2.prems" obtain c where c: "offerCost E lineItem supplierProduct = Inr c"
    by (auto split: sum.splits)
  show ?case
  proof (cases "js_lt c lowestCost")
    case True
    then have cn: "c \<noteq> NaN" using js_lt_not_NaN by blast
    from "2.prems" c True
    have run: "offerLoop E lineItem rest (Some product, c) = Inr (rp, rc)" by simp
    from "2.hyps"[OF c _ run cn] True
    consider (kept) "rp = Some product" "rc = c"
      | (later) "js_lt rc c"
          "\<exists>p sp. find (\<lambda>(p', sp'). offerCost E lineItem sp' = Inr rc) rest = Some (p, sp) \<and> rp = Some p"
      by auto
    then show ?thesis
    proof cases
      case kept
      then show ?thesis using True c by auto
    next
      case later
      have "rc \<noteq> c" using later(1) by auto
      moreover have "js_lt rc lowestCost" using later(1) True js_lt_trans by blast
      ultimately show ?thesis using later(2) c by auto
    qed
  next
    case False
    from "2.prems" c False
    have run: "offerLoop E lineItem rest (lowestCostProduct, lowestCost) = Inr (rp, rc)" by simp
    from "2.hyps"[OF c _ run "2.prems"(2)] False
    consider (kept) "rp = lowestCostProduct" "rc = lowestCost"
        "\<forall>(p, sp) \<in> set rest. \<forall>c. offerCost E lineItem sp = Inr c \<longrightarrow> \<not> js_lt c lowestCost"
      | (later) "js_lt rc lowestCost"
          "\<exists>p sp. find (\<lambda>(p', sp'). offerCost E lineItem sp' = Inr rc) rest = Some (p, sp) \<and> rp = Some p"
      by auto
    then show ?thesis
    proof cases
      case kept
      then show ?thesis using False c by auto
    next
      case later
      have "rc \<noteq> c" using later(1) False by auto
      then show ?thesis using later c by auto
    qed
  qed
qed

lemma findLowestCostProduct_offerLoop:
  "findLowestCostProduct E li =
     (case GetProductsForIngredient E (ingredient li) of
        Inl m \<Rightarrow> Inl (CollaboratorError m)
      | Inr products \<Rightarrow>
          (case offerLoop E li (offersOf products) (None, Infinity) of
             Inl e \<Rightarrow> Inl e
           | Inr (None, lowestCost) \<Rightarrow> Inl NoCandidatesError
           | Inr (Some p, lowestCost) \<Rightarrow> Inr (p, lowestCost)))"
  by (simp add: findLowestCostProduct_def productLoop_offerLoop split: sum.splits)

lemma findLowestCostProduct_InrD:
  assumes "findLowestCostProduct E li = Inr (p, c)"
    and "GetProductsForIngredient E (ingredient li) = Inr products"
  shows "offerLoop E li (offersOf products) (None, Infinity) = Inr (Some p, c)"
  using assms
  by (auto simp: findLowestCostProduct_offerLoop split: sum.splits option.splits)

lemma findLowestCostProduct_returns:
  assumes products: "GetProductsForIngredient E (ingredient li) = Inr products"
    and defined: "\<forall>(p, sp) \<in> set (offersOf products). \<exists>c. offerCost E li sp = Inr c"
    and below: "\<exists>(p, sp) \<in> set (offersOf products). \<exists>c. offerCost E li sp = Inr c \<and> js_lt c Infinity"
  shows "\<exists>p c. findLowestCostProduct E li = Inr (p, c)"
proof -
  from offerLoop_returns[OF defined] obtain rp rc
    where run: "offerLoop E li (offersOf products) (None, Infinity) = Inr (rp, rc)"
    by (metis surj_pair)
  have "rp \<noteq> None"
  proof
    assume "rp = None"
    with offerLoop_first[OF run] have "\<forall>(p, sp) \<in> set (offersOf products).
       \<forall>c. offerCost E li sp = Inr c \<longrightarrow> \<not> js_lt c Infinity"
      by auto
    with below show False by blast
  qed
  then obtain p where "rp = Some p" by auto
  with run products show ?thesis
    by (simp add: findLowestCostProduct_offerLoop)
qed

lemma offerCost_error: "offerCost E li sp = Inl e \<Longrightarrow> \<exists>m. e = CollaboratorError m"
  by (auto simp: offerCost_def calculateRealCost_def split: sum.splits)

lemma NoCandidatesError_iff_no_offer_below_Infinity:
  "findLowestCostProduct E li = Inl NoCandidatesError \<longleftrightarrow>
     (\<exists>products. GetProductsForIngredient E (ingredient li) = Inr products
        \<and> (\<forall>(p, sp) \<in> set (offersOf products).
              \<exists>c. offerCost E li sp = Inr c \<and> \<not> js_lt c Infinity))"
proof
  assume fails: "findLowestCostProduct E li = Inl NoCandidatesError"
  then obtain products where products: "GetProductsForIngredient E (ingredient li) = Inr products"
    by (auto simp: findLowestCostProduct_offerLoop split: sum.splits)
  have "\<exists>r. offerLoop E li (offersOf products) (None, Infinity) = Inr r"
  proof (cases "offerLoop E li (offersOf products) (None, Infinity)")
    case (Inl e)
    with fails products have "e = NoCandidatesError"
      by (simp add: findLowestCostProduct_offerLoop)
    with offerLoop_throws[OF Inl] offerCost_error show ?thesis by fastforce
  next
    case (Inr r)
    then show ?thesis by blast
  qed
  then obtain rp rc where run: "offerLoop E li (offersOf products) (None, Infinity) = Inr (rp, rc)"
    by (metis surj_pair)
  with fails products have none: "rp = None"
    by (auto simp: findLowestCostProduct_offerLoop split: option.splits)
  have "\<forall>(p, sp) \<in> set (offersOf products). \<exists>c. offerCost E li sp = Inr c \<and> \<not> js_lt c Infinity"
  proof (clarify)
    fix p sp assume mem: "(p, sp) \<in> set (offersOf products)"
    from offerLoop_costs_defined[OF run mem] obtain c where c: "offerCost E li sp = Inr c" by blast
    from offerLoop_first[OF run] none mem c have "\<not> js_lt c Infinity" by auto
    with c show "\<exists>c. offerCost E li sp = Inr c \<and> \<not> js_lt c Infinity" by blast
  qed
  with products show "\<exists>products. GetProductsForIngredient E (ingredient li) = Inr products
        \<and> (\<forall>(p, sp) \<in> set (offersOf products).
              \<exists>c. offerCost E li sp = Inr c \<and> \<not> js_lt c Infinity)"
    by blast
next
  assume "\<exists>products. GetProductsForIngredient E (ingredient li) = Inr products
        \<and> (\<forall>(p, sp) \<in> set (offersOf products).
              \<exists>c. offerCost E li sp = Inr c \<and> \<not> js_lt c Infinity)"
  then obtain products where products: "GetProductsForIngredient E (ingredient li) = Inr products"
    and none: "\<forall>(p, sp) \<in> set (offersOf products).
              \<exists>c. offerCost E li sp = Inr c \<and> \<not> js_lt c Infinity"
    by blast
  from none have "\<forall>(p, sp) \<in> set (offersOf products). \<exists>c. offerCost E li sp = Inr c"
    by blast
  from offerLoop_returns[OF this] obtain rp rc
    where run: "offerLoop E li (offersOf products) (None, Infinity) = Inr (rp, rc)"
    by (metis surj_pair)
  have "rp = None"
  proof (rule ccontr)
    assume "rp \<noteq> None"
    with offerLoop_first[OF run] obtain p sp
      where lt: "js_lt rc Infinity"
        and f: "find (\<lambda>(p', sp'). offerCost E li sp' = Inr rc) (offersOf products) = Some (p, sp)"
      by auto
    from f have "(p, sp) \<in> set (offersOf products)" "offerCost E li sp = Inr rc"
      by (auto simp: find_Some_iff in_set_conv_nth)
    with none lt show False by auto
  qed
  with run products show "findLowestCostProduct E li = Inl NoCandidatesError"
    by (simp add: findLowestCostProduct_offerLoop)
qed

section \<open>The loops over facts and line items\<close>

lemma aggregateNutrients_append:
  "aggregateNutrients E ex (xs @ ys) s =
     (case aggregateNutrients E ex xs s of
        (Inl e, s') \<Rightarrow> (Inl e, s')
      | (Inr ex', s') \<Rightarrow> aggregateNutrients E ex' ys s')"
  by (induction E ex xs s rule: aggregateNutrients.induct)
    (auto split: prod.splits sum.splits js_lookup.splits)

lemma lineItemLoop_append:
  "lineItemLoop E (xs @ ys) acc s =
     (case lineItemLoop E xs acc s of
        (Inl e, s') \<Rightarrow> (Inl e, s')
      | (Inr acc', s') \<Rightarrow> lineItemLoop E ys acc' s')"
  by (induction E xs acc s rule: lineItemLoop.induct)
    (auto split: prod.splits sum.splits)

lemma lineItemLoop_fails:
  "lineItem \<in> set lis \<Longrightarrow> findLowestCostProduct E lineItem = Inl e \<Longrightarrow>
   \<exists>e' s'. lineItemLoop E lis acc s = (Inl e', s')"
  by (induction E lis acc s rule: lineItemLoop.induct)
    (auto split: prod.splits sum.splits)

lemma lineItemLoop_success:
  "lineItemLoop E lis (totalCost, totalNutrients) s = (Inr (totalCost', totalNutrients'), s') \<Longrightarrow>
   \<exists>winners. map (findLowestCostProduct E) lis = map Inr winners
     \<and> totalCost' = foldl js_add totalCost (map snd winners)
     \<and> aggregateNutrients E totalNutrients (concat (map (nutrientFacts \<circ> fst) winners)) s
         = (Inr totalNutrients', s')"
proof (induction E lis "(totalCost, totalNutrients)" s arbitrary: totalCost totalNutrients
    rule: lineItemLoop.induct)
  case (1 E s)
  then show ?case by simp
next
  case (2 E lineItem rest totalCost totalNutrients s)
  from "2.prems" obtain product cost
    where w: "findLowestCostProduct E lineItem = Inr (product, cost)"
    by (auto split: sum.splits)
  from "2.prems" w obtain tn1 s1
    where a: "aggregateNutrients E totalNutrients (nutrientFacts product) s = (Inr tn1, s1)"
    by (auto split: sum.splits prod.splits)
  from "2.prems" w a
  have run: "lineItemLoop E rest (js_add totalCost cost, tn1) s1
               = (Inr (totalCost', totalNutrients'), s')"
    by simp
  from "2.hyps"[OF w refl a[symmetric] refl run] obtain winners
    where ih: "map (findLowestCostProduct E) rest = map Inr winners"
      "totalCost' = foldl js_add (js_add totalCost cost) (map snd winners)"
      "aggregateNutrients E tn1 (concat (map (nutrientFacts \<circ> fst) winners)) s1
         = (Inr totalNutrients', s')"
    by blast
  show ?case
    by (rule exI[of _ "(product, cost) # winners"])
      (simp add: w ih aggregateNutrients_append a)
qed

lemma mergeGroups_concat:
  "mergeGroups E totals groups s = aggregateNutrients E totals (concat groups) s"
  by (induction groups arbitrary: totals s)
    (auto simp: aggregateNutrients_append split: prod.splits sum.splits)

lemma summarizeRecipe_fails:
  assumes "findLowestCostProduct E lineItem = Inl e" and "lineItem \<in> set (lineItems recipe)"
  shows "\<exists>e' s'. summarizeRecipe E recipe s = (Inl e', s')"
proof -
  from lineItemLoop_fails[OF assms(2) assms(1)] obtain e' s'
    where "lineItemLoop E (lineItems recipe) (Finite 0, []) s = (Inl e', s')" by blast
  then show ?thesis by (simp add: summarizeRecipe_def)
qed

lemma summarizeRecipe_fails_first:
  assumes "findLowestCostProduct E lineItem = Inl e"
    and "lineItems recipe = before @ lineItem # after"
    and "lineItemLoop E before (Finite 0, []) s = (Inr acc, s1)"
  shows "summarizeRecipe E recipe s = (Inl e, s1)"
proof -
  obtain tc tn where acc: "acc = (tc, tn)" by (cases acc)
  show ?thesis
    using assms by (simp add: summarizeRecipe_def lineItemLoop_append acc)
qed

section \<open>Lookups, assignments and one step of the merge\<close>

lemma proto_in_prototype [simp]: "''__proto__'' \<in> set objectPrototypeKeys"
  by (simp add: objectPrototypeKeys_def)

lemma js_get_Own_iff: "js_get obj key = Own v \<longleftrightarrow> map_of obj key = Some v"
  by (auto simp: js_get_def split: option.splits)

lemma js_get_Undefined_iff:
  "js_get obj key = Undefined \<longleftrightarrow> map_of obj key = None \<and> key \<notin> set objectPrototypeKeys"
  by (auto simp: js_get_def split: option.splits)

lemma update_absent: "map_of obj key = None \<Longrightarrow> AList.update key v obj = obj @ [(key, v)]"
  by (induction obj) (auto split: if_splits)

lemma js_put_new:
  "js_get obj key = Undefined \<Longrightarrow> js_put obj key v = obj @ [(key, v)]"
  by (auto simp: js_get_Undefined_iff js_put_def update_absent)

lemma aggregateNutrients_Own:
  assumes "GetNutrientFactInBaseUnits E s newFact = (Inr baseUnitFact, s1)"
    and "map_of existing (nutrientName newFact) = Some entry"
  shows "aggregateNutrients E existing (newFact # rest) s
         = aggregateNutrients E existing rest
             (addAmount s1 (quantityAmount entry) (quantityAmount baseUnitFact))"
  using assms by (simp add: js_get_def)

lemma aggregateNutrients_Undefined:
  assumes "GetNutrientFactInBaseUnits E s newFact = (Inr baseUnitFact, s1)"
    and "map_of existing (nutrientName newFact) = None"
    and "nutrientName newFact \<notin> set objectPrototypeKeys"
  shows "aggregateNutrients E existing (newFact # rest) s
         = aggregateNutrients E (existing @ [(nutrientName newFact, baseUnitFact)]) rest s1"
proof -
  have u: "js_get existing (nutrientName newFact) = Undefined"
    using assms by (simp add: js_get_Undefined_iff)
  show ?thesis
    using assms(1) by (simp add: u js_put_new[OF u])
qed

lemma addAmount_cells:
  "cells (addAmount s x y) r =
     (if r = x then (cells s x)\<lparr>uomAmount := js_add (uomAmount (cells s x)) (uomAmount (cells s y))\<rparr>
      else cells s r)"
  by (simp add: addAmount_def)

lemma addAmount_allocated [simp]: "allocated (addAmount s x y) = allocated s"
  by (simp add: addAmount_def)

lemma keysMatch_append [simp]:
  "keysMatch (obj @ [(key, f)]) \<longleftrightarrow> keysMatch obj \<and> nutrientName f = key"
  by (simp add: keysMatch_def)

lemma keysMatch_Nil [simp]: "keysMatch []"
  by (simp add: keysMatch_def)

lemma aggregateNutrients_keysMatch:
  assumes pres: "\<forall>s f bf s1. nutrientName f \<notin> set objectPrototypeKeys \<longrightarrow>
            GetNutrientFactInBaseUnits E s f = (Inr bf, s1) \<longrightarrow> nutrientName bf = nutrientName f"
  shows "keysMatch existing \<Longrightarrow> aggregateNutrients E existing facts s = (Inr existing', s') \<Longrightarrow>
         keysMatch existing'"
proof (induction facts arbitrary: existing s)
  case Nil
  then show ?case by simp
next
  case (Cons newFact rest)
  from Cons.prems(2) obtain bf s1
    where h: "GetNutrientFactInBaseUnits E s newFact = (Inr bf, s1)"
    by (auto split: prod.splits sum.splits)
  show ?case
  proof (cases "js_get existing (nutrientName newFact)")
    case Undefined
    then have "nutrientName newFact \<notin> set objectPrototypeKeys"
      by (simp add: js_get_Undefined_iff)
    with pres h have same: "nutrientName bf = nutrientName newFact" by blast
    have put: "js_put existing (nutrientName newFact) bf
                 = existing @ [(nutrientName newFact, bf)]"
      using Undefined by (rule js_put_new)
    have "keysMatch (js_put existing (nutrientName newFact) bf)"
      using Cons.prems(1) same by (simp add: put)
    moreover have "aggregateNutrients E (js_put existing (nutrientName newFact) bf)
                     rest s1 = (Inr existing', s')"
      using Cons.prems(2) h Undefined by simp
    ultimately show ?thesis
      using Cons.IH by blast
  next
    case Inherited
    with Cons.prems(2) h show ?thesis by simp
  next
    case (Own entry)
    have "aggregateNutrients E existing rest
            (addAmount s1 (quantityAmount entry) (quantityAmount bf)) = (Inr existing', s')"
      using Cons.prems(2) h Own by simp
    then show ?thesis
      using Cons.IH Cons.prems(1) by blast
  qed
qed

lemma aggregateNutrients_single_new:
  assumes "GetNutrientFactInBaseUnits E s newFact = (Inr baseUnitFact, s1)"
    and "js_get existing (nutrientName newFact) = Undefined"
  shows "aggregateNutrients E existing [newFact] s
           = (Inr (existing @ [(nutrientName newFact, baseUnitFact)]), s1)"
  using assms by (simp add: js_put_new)

lemma keysMatch_preserved_iff:
  "(\<forall>existing facts s existing' s'.
       keysMatch existing \<longrightarrow> aggregateNutrients E existing facts s = (Inr existing', s') \<longrightarrow>
       keysMatch existing')
   \<longleftrightarrow> (\<forall>s f bf s1. nutrientName f \<notin> set objectPrototypeKeys \<longrightarrow>
            GetNutrientFactInBaseUnits E s f = (Inr bf, s1) \<longrightarrow> nutrientName bf = nutrientName f)"
proof
  assume inv: "\<forall>existing facts s existing' s'.
       keysMatch existing \<longrightarrow> aggregateNutrients E existing facts s = (Inr existing', s') \<longrightarrow>
       keysMatch existing'"
  show "\<forall>s f bf s1. nutrientName f \<notin> set objectPrototypeKeys \<longrightarrow>
            GetNutrientFactInBaseUnits E s f = (Inr bf, s1) \<longrightarrow> nutrientName bf = nutrientName f"
  proof (intro allI impI)
    fix s f bf s1
    assume name: "nutrientName f \<notin> set objectPrototypeKeys"
      and h: "GetNutrientFactInBaseUnits E s f = (Inr bf, s1)"
    have "js_get ([] :: NutrientFact js_object) (nutrientName f) = Undefined"
      using name by (simp add: js_get_Undefined_iff)
    from aggregateNutrients_single_new[OF h this]
    have "aggregateNutrients E [] [f] s = (Inr [(nutrientName f, bf)], s1)" by simp
    with inv have "keysMatch [(nutrientName f, bf)]"
      using keysMatch_Nil by blast
    then show "nutrientName bf = nutrientName f" by (simp add: keysMatch_def)
  qed
next
  assume "\<forall>s f bf s1. nutrientName f \<notin> set objectPrototypeKeys \<longrightarrow>
            GetNutrientFactInBaseUnits E s f = (Inr bf, s1) \<longrightarrow> nutrientName bf = nutrientName f"
  then show "\<forall>existing facts s existing' s'.
       keysMatch existing \<longrightarrow> aggregateNutrients E existing facts s = (Inr existing', s') \<longrightarrow>
       keysMatch existing'"
    using aggregateNutrients_keysMatch by blast
qed

section \<open>The keys of the sorted object\<close>

text \<open>
  \<open>sortKeys\<close> creates the own properties in the order of the sorted keys. When no key is
  an array index this is also the enumeration order, and the keys of the summary are in
  ascending order.
\<close>

lemma mset_Object_keys: "mset (Object_keys obj) = mset (map fst obj)"
  by (simp add: Object_keys_def Let_def)

lemma set_Object_keys: "set (Object_keys obj) = fst ` set obj"
  using mset_eq_setD[OF mset_Object_keys[of obj]] by simp

lemma distinct_Object_keys: "distinct (map fst obj) \<Longrightarrow> distinct (Object_keys obj)"
  using mset_Object_keys[of obj] by (metis distinct_map mset_eq_imp_distinct_iff)

lemma Object_keys_no_index:
  "list_all (\<lambda>k. \<not> isArrayIndex k) (map fst obj) \<Longrightarrow> Object_keys obj = map fst obj"
proof -
  assume a: "list_all (\<lambda>k. \<not> isArrayIndex k) (map fst obj)"
  then have "filter isArrayIndex (map fst obj) = []"
    by (auto simp: list_all_iff filter_empty_conv)
  moreover from a have "filter (\<lambda>k. \<not> isArrayIndex k) (map fst obj) = map fst obj"
    by (auto simp: list_all_iff)
  ultimately show ?thesis by (simp add: Object_keys_def Let_def)
qed

lemma sortKeys_fold_keys:
  assumes "distinct ks"
    and "\<forall>k \<in> set ks. k \<notin> fst ` set acc \<and> k \<noteq> ''__proto__'' \<and> map_of obj k \<noteq> None"
  shows "map fst (foldl (\<lambda>result key. case map_of obj key of
                           Some v \<Rightarrow> js_put result key v | None \<Rightarrow> result) acc ks)
         = map fst acc @ ks"
  using assms
proof (induction ks arbitrary: acc)
  case Nil
  then show ?case by simp
next
  case (Cons k ks)
  from Cons.prems obtain v where v: "map_of obj k = Some v" by auto
  have absent: "map_of acc k = None"
    using Cons.prems(2) by (simp add: map_of_eq_None_iff)
  have put: "js_put acc k v = acc @ [(k, v)]"
    using Cons.prems(2) absent by (simp add: js_put_def update_absent)
  have "\<forall>k' \<in> set ks. k' \<notin> fst ` set (acc @ [(k, v)]) \<and> k' \<noteq> ''__proto__'' \<and> map_of obj k' \<noteq> None"
    using Cons.prems by auto
  from Cons.IH[OF _ this] Cons.prems(1) show ?case
    by (simp add: v put)
qed

lemma sortKeys_keys:
  assumes "plainKeys obj"
  shows "map fst (sortKeys obj) = sort (Object_keys obj)"
proof -
  have d: "distinct (sort (Object_keys obj))"
    using assms by (simp add: plainKeys_def distinct_Object_keys)
  have "\<forall>k \<in> set (sort (Object_keys obj)).
          k \<notin> fst ` set ([] :: (string \<times> 'a) list) \<and> k \<noteq> ''__proto__'' \<and> map_of obj k \<noteq> None"
  proof
    fix k assume "k \<in> set (sort (Object_keys obj))"
    then have k: "k \<in> fst ` set obj" by (simp add: set_Object_keys)
    then have "map_of obj k \<noteq> None" by (simp add: map_of_eq_None_iff)
    moreover from k assms have "k \<notin> set objectPrototypeKeys"
      by (auto simp: plainKeys_def list_all_iff)
    then have "k \<noteq> ''__proto__''" by auto
    ultimately show "k \<notin> fst ` set ([] :: (string \<times> 'a) list) \<and> k \<noteq> ''__proto__'' \<and> map_of obj k \<noteq> None"
      by simp
  qed
  from sortKeys_fold_keys[OF d this] show ?thesis
    by (simp add: sortKeys_def)
qed

lemma sortKeys_sorted:
  assumes "plainKeys obj"
    and "list_all (\<lambda>k. \<not> isArrayIndex k) (map fst obj)"
  shows "Object_keys (sortKeys obj) = sort (map fst obj)"
proof -
  have keys: "map fst (sortKeys obj) = sort (map fst obj)"
    using sortKeys_keys[OF assms(1)] Object_keys_no_index[OF assms(2)] by simp
  have "list_all (\<lambda>k. \<not> isArrayIndex k) (map fst (sortKeys obj))"
    using assms(2) by (simp add: keys list_all_iff)
  from Object_keys_no_index[OF this] keys show ?thesis by simp
qed

lemma aggregateNutrients_plainKeys:
  "plainKeys existing \<Longrightarrow> aggregateNutrients E existing facts s = (Inr existing', s') \<Longrightarrow>
   plainKeys existing' \<and> fst ` set existing' \<subseteq> fst ` set existing \<union> nutrientName ` set facts"
proof (induction facts arbitrary: existing s)
  case Nil
  then show ?case by auto
next
  case (Cons f rest)
  from Cons.prems(2) obtain bf s1 where h: "GetNutrientFactInBaseUnits E s f = (Inr bf, s1)"
    by (auto split: prod.splits sum.splits)
  show ?case
  proof (cases "js_get existing (nutrientName f)")
    case Undefined
    then have absent: "map_of existing (nutrientName f) = None"
      and np: "nutrientName f \<notin> set objectPrototypeKeys"
      by (simp_all add: js_get_Undefined_iff)
    have put: "js_put existing (nutrientName f) bf = existing @ [(nutrientName f, bf)]"
      using Undefined by (rule js_put_new)
    have "nutrientName f \<notin> fst ` set existing"
      using absent by (simp add: map_of_eq_None_iff)
    then have pk: "plainKeys (existing @ [(nutrientName f, bf)])"
      using Cons.prems(1) np by (auto simp: plainKeys_def)
    have run: "aggregateNutrients E (existing @ [(nutrientName f, bf)]) rest s1 = (Inr existing', s')"
      using Cons.prems(2) h Undefined by (simp add: put)
    from Cons.IH[OF pk run] show ?thesis by auto
  next
    case Inherited
    with Cons.prems(2) h show ?thesis by simp
  next
    case (Own entry)
    with Cons.prems(2) h
    have run: "aggregateNutrients E existing rest
                 (addAmount s1 (quantityAmount entry) (quantityAmount bf)) = (Inr existing', s')"
      by simp
    from Cons.IH[OF Cons.prems(1) run] show ?thesis by auto
  qed
qed

lemma lineItemLoop_plainKeys:
  "plainKeys tn \<Longrightarrow> lineItemLoop E lis (tc, tn) s = (Inr (tc', tn'), s') \<Longrightarrow> plainKeys tn'"
proof (induction lis arbitrary: tc tn s)
  case Nil
  then show ?case by simp
next
  case (Cons li lis)
  from Cons.prems(2) obtain p cost where w: "findLowestCostProduct E li = Inr (p, cost)"
    by (auto split: sum.splits)
  from Cons.prems(2) w obtain tn1 s1
    where a: "aggregateNutrients E tn (nutrientFacts p) s = (Inr tn1, s1)"
    by (auto split: sum.splits prod.splits)
  from Cons.prems(2) w a have run: "lineItemLoop E lis (js_add tc cost, tn1) s1 = (Inr (tc', tn'), s')"
    by simp
  from aggregateNutrients_plainKeys[OF Cons.prems(1) a] have "plainKeys tn1" by simp
  from Cons.IH[OF this run] show ?case .
qed

lemma summarizeRecipe_sorted_keys:
  assumes run: "summarizeRecipe E recipe s = (Inr summary, s')"
    and plain: "list_all (\<lambda>k. \<not> isArrayIndex k) (map fst (nutrientsAtCheapestCost summary))"
  shows "sorted (Object_keys (nutrientsAtCheapestCost summary))"
proof -
  from run obtain tc tn where loop: "lineItemLoop E (lineItems recipe) (Finite 0, []) s = (Inr (tc, tn), s')"
    and summary: "nutrientsAtCheapestCost summary = sortKeys tn"
    by (auto simp: summarizeRecipe_def split: prod.splits sum.splits)
  have "plainKeys ([] :: NutrientFact js_object)" by (simp add: plainKeys_def)
  from lineItemLoop_plainKeys[OF this loop] have pk: "plainKeys tn" .
  have "Object_keys (sortKeys tn) = map fst (sortKeys tn)"
    using plain by (intro Object_keys_no_index) (simp add: summary)
  also have "\<dots> = sort (Object_keys tn)"
    using pk by (rule sortKeys_keys)
  finally show ?thesis by (simp add: summary)
qed

section \<open>The merge with newly created quantities\<close>

lemma map_of_view: "map_of (view s obj) key = map_option (contentOf (cells s)) (map_of obj key)"
  by (induction obj) (auto simp: view_def)

lemma js_get_view:
  "js_get (view s obj) key =
     (case js_get obj key of Own f \<Rightarrow> Own (contentOf (cells s) f)
      | Inherited \<Rightarrow> Inherited | Undefined \<Rightarrow> Undefined)"
  by (simp add: js_get_def map_of_view split: option.splits)

lemma view_cong:
  "list_all (\<lambda>(key, f). cells s (quantityAmount f) = cells t (quantityAmount f)) obj \<Longrightarrow>
   view s obj = view t obj"
  by (induction obj) (auto simp: view_def contentOf_def)

lemma view_append: "view s (obj @ obj') = view s obj @ view s obj'"
  by (simp add: view_def)

lemma view_addAmount:
  assumes "map_of obj key = Some entry"
    and "distinct (map (quantityAmount \<circ> snd) obj)"
    and "y \<notin> set (map (quantityAmount \<circ> snd) obj)"
  shows "view (addAmount s (quantityAmount entry) y) obj
         = AList.update key
             (nutrientName entry,
              (cells s (quantityAmount entry))\<lparr>uomAmount :=
                 js_add (uomAmount (cells s (quantityAmount entry))) (uomAmount (cells s y))\<rparr>)
             (view s obj)"
  using assms
proof (induction obj)
  case Nil
  then show ?case by simp
next
  case (Cons x obj)
  obtain k f where x: "x = (k, f)" by (cases x)
  show ?case
  proof (cases "k = key")
    case True
    with Cons.prems x have f: "f = entry" by simp
    have "list_all (\<lambda>(key, g). cells (addAmount s (quantityAmount entry) y) (quantityAmount g)
                                = cells s (quantityAmount g)) obj"
    proof -
      have "quantityAmount entry \<notin> set (map (quantityAmount \<circ> snd) obj)"
        using Cons.prems(2) x f by simp
      then have "\<forall>(key, g) \<in> set obj. quantityAmount g \<noteq> quantityAmount entry"
        by force
      then show ?thesis
        by (auto simp: list_all_iff addAmount_cells)
    qed
    then have "view (addAmount s (quantityAmount entry) y) obj = view s obj"
      by (rule view_cong)
    then show ?thesis
      using True x f by (simp add: view_def contentOf_def addAmount_cells)
  next
    case False
    with Cons.prems x have m: "map_of obj key = Some entry" by simp
    then have "(key, entry) \<in> set obj" by (rule map_of_SomeD)
    then have "quantityAmount entry \<in> set (map (quantityAmount \<circ> snd) obj)"
      by force
    moreover have "quantityAmount f \<notin> set (map (quantityAmount \<circ> snd) obj)"
      using Cons.prems(2) x by simp
    ultimately have "quantityAmount f \<noteq> quantityAmount entry" by metis
    then have "cells (addAmount s (quantityAmount entry) y) (quantityAmount f)
                 = cells s (quantityAmount f)"
      by (simp add: addAmount_cells)
    moreover have "view (addAmount s (quantityAmount entry) y) obj
         = AList.update key
             (nutrientName entry,
              (cells s (quantityAmount entry))\<lparr>uomAmount :=
                 js_add (uomAmount (cells s (quantityAmount entry))) (uomAmount (cells s y))\<rparr>)
             (view s obj)"
      using Cons.IH[OF m] Cons.prems(2,3) by simp
    ultimately show ?thesis
      using False x by (simp add: view_def contentOf_def)
  qed
qed

lemma allocate_cells: "cells (allocate s u) a = (if a = allocated s then u else cells s a)"
  by (simp add: allocate_def)

lemma allocate_allocated [simp]: "allocated (allocate s u) = Suc (allocated s)"
  by (simp add: allocate_def)

lemma allocatingHelper_Inl:
  "conv (contentOf (cells s) f) = Inl m \<Longrightarrow> allocatingHelper conv s f = (Inl m, s)"
  by (simp add: allocatingHelper_def contentOf_def)

lemma allocatingHelper_Inr:
  "conv (contentOf (cells s) f) = Inr (n, u) \<Longrightarrow>
   allocatingHelper conv s f
     = (Inr \<lparr>nutrientName = n, quantityAmount = allocated s\<rparr>, allocate s u)"
  by (simp add: allocatingHelper_def contentOf_def)

lemma ownedFrom_allocate: "ownedFrom n0 s obj \<Longrightarrow> ownedFrom n0 (allocate s u) obj"
  by (auto simp: ownedFrom_def list_all_iff)

lemma ownedFrom_addAmount: "ownedFrom n0 s obj \<Longrightarrow> ownedFrom n0 (addAmount s x y) obj"
  by (simp add: ownedFrom_def)

lemma ownedFrom_new_entry:
  assumes "ownedFrom n0 s obj"
  shows "ownedFrom n0 (allocate s u)
           (obj @ [(key, \<lparr>nutrientName = n, quantityAmount = allocated s\<rparr>)])"
proof -
  from assms have "\<forall>(k, f) \<in> set obj. quantityAmount f < allocated s"
    by (auto simp: ownedFrom_def list_all_iff)
  then have "allocated s \<notin> set (map (quantityAmount \<circ> snd) obj)"
    by force
  with assms show ?thesis
    by (auto simp: ownedFrom_def list_all_iff)
qed

lemma ownedFrom_fresh:
  assumes "ownedFrom n0 s obj"
  shows "allocated s \<notin> set (map (quantityAmount \<circ> snd) obj)"
proof -
  from assms have "\<forall>(k, f) \<in> set obj. quantityAmount f < allocated s"
    by (auto simp: ownedFrom_def list_all_iff)
  then show ?thesis by force
qed

lemma view_allocate: "ownedFrom n0 s obj \<Longrightarrow> view (allocate s u) obj = view s obj"
  by (rule view_cong) (auto simp: ownedFrom_def list_all_iff allocate_cells)

lemma contents_allocate:
  "list_all (\<lambda>f. quantityAmount f < n0) facts \<Longrightarrow> n0 \<le> allocated s \<Longrightarrow>
   map (contentOf (cells (allocate s u))) facts = map (contentOf (cells s)) facts"
  by (auto simp: list_all_iff contentOf_def allocate_cells)

lemma contents_addAmount:
  "list_all (\<lambda>f. quantityAmount f < n0) facts \<Longrightarrow> n0 \<le> x \<Longrightarrow>
   map (contentOf (cells (addAmount s x y))) facts = map (contentOf (cells s)) facts"
  by (auto simp: list_all_iff contentOf_def addAmount_cells)

lemma ownedFrom_entry:
  "ownedFrom n0 s obj \<Longrightarrow> map_of obj key = Some entry \<Longrightarrow>
   n0 \<le> quantityAmount entry \<and> quantityAmount entry < allocated s"
  by (auto simp: ownedFrom_def list_all_iff dest!: map_of_SomeD)

lemma aggregateNutrients_refines:
  assumes helper: "GetNutrientFactInBaseUnits E = allocatingHelper conv"
  shows "ownedFrom n0 s obj \<Longrightarrow> list_all (\<lambda>f. quantityAmount f < n0) facts \<Longrightarrow>
         aggregateNutrients E obj facts s = (r, s') \<Longrightarrow>
         (\<forall>a<n0. cells s' a = cells s a) \<and> allocated s \<le> allocated s' \<and>
         (case r of
            Inl e \<Rightarrow> aggregateContents conv (view s obj) (map (contentOf (cells s)) facts) = Inl e
          | Inr obj' \<Rightarrow> ownedFrom n0 s' obj' \<and>
              aggregateContents conv (view s obj) (map (contentOf (cells s)) facts)
                = Inr (view s' obj'))"
proof (induction facts arbitrary: obj s)
  case Nil
  then show ?case by auto
next
  case (Cons f rest)
  have n0: "n0 \<le> allocated s" using Cons.prems(1) by (simp add: ownedFrom_def)
  have restwf: "list_all (\<lambda>f. quantityAmount f < n0) rest" using Cons.prems(2) by simp
  show ?case
  proof (cases "conv (contentOf (cells s) f)")
    case (Inl m)
    then show ?thesis
      using Cons.prems(3) by (auto simp: helper allocatingHelper_Inl)
  next
    case (Inr bc)
    obtain n u where bc: "bc = (n, u)" by (cases bc)
    let ?bf = "\<lparr>nutrientName = n, quantityAmount = allocated s\<rparr>"
    let ?s1 = "allocate s u"
    have h: "GetNutrientFactInBaseUnits E s f = (Inr ?bf, ?s1)"
      using Inr bc by (simp add: helper allocatingHelper_Inr)
    have frame1: "\<forall>a<n0. cells ?s1 a = cells s a"
      using n0 by (simp add: allocate_cells)
    have view1: "view ?s1 obj = view s obj"
      using Cons.prems(1) by (rule view_allocate)
    have rest1: "map (contentOf (cells ?s1)) rest = map (contentOf (cells s)) rest"
      using restwf n0 by (rule contents_allocate)
    have own1: "ownedFrom n0 ?s1 obj"
      using Cons.prems(1) by (rule ownedFrom_allocate)
    have fstc: "fst (contentOf (cells s) f) = nutrientName f"
      by (simp add: contentOf_def)
    show ?thesis
    proof (cases "js_get obj (nutrientName f)")
      case Undefined
      let ?obj' = "obj @ [(nutrientName f, ?bf)]"
      have put: "js_put obj (nutrientName f) ?bf = ?obj'"
        using Undefined by (rule js_put_new)
      have run: "aggregateNutrients E ?obj' rest ?s1 = (r, s')"
        using Cons.prems(3) h Undefined by (simp add: put)
      have own': "ownedFrom n0 ?s1 ?obj'"
        using Cons.prems(1) by (rule ownedFrom_new_entry)
      from Cons.IH[OF own' restwf run]
      have ih: "\<forall>a<n0. cells s' a = cells ?s1 a" "allocated ?s1 \<le> allocated s'"
        "case r of
            Inl e \<Rightarrow> aggregateContents conv (view ?s1 ?obj') (map (contentOf (cells ?s1)) rest) = Inl e
          | Inr obj' \<Rightarrow> ownedFrom n0 s' obj' \<and>
              aggregateContents conv (view ?s1 ?obj') (map (contentOf (cells ?s1)) rest)
                = Inr (view s' obj')"
        by auto
      have getv: "js_get (view s obj) (nutrientName f) = Undefined"
        using Undefined by (simp add: js_get_view)
      have view': "view ?s1 ?obj' = js_put (view s obj) (nutrientName f) (n, u)"
        by (simp add: js_put_new[OF getv] view_append view1)
          (simp add: view_def contentOf_def allocate_cells)
      have pure: "aggregateContents conv (view s obj) (map (contentOf (cells s)) (f # rest))
                  = aggregateContents conv (view ?s1 ?obj') (map (contentOf (cells ?s1)) rest)"
        using Inr bc by (simp add: fstc getv view' rest1)
      show ?thesis
        using ih frame1 unfolding pure by auto
    next
      case Inherited
      have "aggregateNutrients E obj (f # rest) s = (Inl TypeError, ?s1)"
        using h Inherited by simp
      with Cons.prems(3) have r: "r = Inl TypeError" "s' = ?s1" by auto
      have getv: "js_get (view s obj) (nutrientName f) = Inherited"
        using Inherited by (simp add: js_get_view)
      have "aggregateContents conv (view s obj) (map (contentOf (cells s)) (f # rest)) = Inl TypeError"
        using Inr bc by (simp add: fstc getv)
      then show ?thesis
        using r frame1 by simp
    next
      case (Own entry)
      then have m: "map_of obj (nutrientName f) = Some entry"
        by (simp add: js_get_Own_iff)
      let ?x = "quantityAmount entry"
      let ?s2 = "addAmount ?s1 ?x (allocated s)"
      have x: "n0 \<le> ?x" "?x < allocated s"
        using ownedFrom_entry[OF Cons.prems(1) m] by auto
      have run: "aggregateNutrients E obj rest ?s2 = (r, s')"
        using Cons.prems(3) h Own by simp
      have own2: "ownedFrom n0 ?s2 obj"
        using own1 by (rule ownedFrom_addAmount)
      have rest2: "map (contentOf (cells ?s2)) rest = map (contentOf (cells s)) rest"
        using contents_addAmount[OF restwf x(1)] rest1 by simp
      have frame2: "\<forall>a<n0. cells ?s2 a = cells s a"
        using frame1 x(1) by (simp add: addAmount_cells)
      have dist: "distinct (map (quantityAmount \<circ> snd) obj)"
        using Cons.prems(1) by (simp add: ownedFrom_def)
      have fresh: "allocated s \<notin> set (map (quantityAmount \<circ> snd) obj)"
        using Cons.prems(1) by (rule ownedFrom_fresh)
      have cx: "cells ?s1 ?x = cells s ?x" "cells ?s1 (allocated s) = u"
        using x(2) by (simp_all add: allocate_cells)
      have view2: "view ?s2 obj
         = AList.update (nutrientName f)
             (nutrientName entry,
              (cells s ?x)\<lparr>uomAmount := js_add (uomAmount (cells s ?x)) (uomAmount u)\<rparr>)
             (view s obj)"
        using view_addAmount[OF m dist fresh, of ?s1] by (simp add: cx view1)
      from Cons.IH[OF own2 restwf run]
      have ih: "\<forall>a<n0. cells s' a = cells ?s2 a" "allocated ?s2 \<le> allocated s'"
        "case r of
            Inl e \<Rightarrow> aggregateContents conv (view ?s2 obj) (map (contentOf (cells ?s2)) rest) = Inl e
          | Inr obj' \<Rightarrow> ownedFrom n0 s' obj' \<and>
              aggregateContents conv (view ?s2 obj) (map (contentOf (cells ?s2)) rest)
                = Inr (view s' obj')"
        by auto
      have getv: "js_get (view s obj) (nutrientName f) = Own (contentOf (cells s) entry)"
        using Own by (simp add: js_get_view)
      have pure: "aggregateContents conv (view s obj) (map (contentOf (cells s)) (f # rest))
                  = aggregateContents conv (view ?s2 obj) (map (contentOf (cells ?s2)) rest)"
        using Inr bc by (simp add: fstc getv view2 rest2) (simp add: contentOf_def)
      show ?thesis
        using ih frame2 unfolding pure by auto
    qed
  qed
qed

lemma winnersBelow_Cons:
  "winnersBelow n0 E (li # lis) \<longleftrightarrow>
     (\<forall>p c. findLowestCostProduct E li = Inr (p, c) \<longrightarrow>
        list_all (\<lambda>f. quantityAmount f < n0) (nutrientFacts p))
     \<and> winnersBelow n0 E lis"
  by (auto simp: winnersBelow_def)

lemma winnersBelow_mono: "winnersBelow n0 E lis \<Longrightarrow> n0 \<le> n1 \<Longrightarrow> winnersBelow n1 E lis"
  by (fastforce simp: winnersBelow_def list_all_iff)

lemma contents_cong:
  "list_all (\<lambda>f. quantityAmount f < n0) facts \<Longrightarrow> \<forall>a<n0. c a = c' a \<Longrightarrow>
   map (contentOf c) facts = map (contentOf c') facts"
  by (auto simp: list_all_iff contentOf_def)

lemma lineItemContents_cong:
  "winnersBelow n0 E lis \<Longrightarrow> \<forall>a<n0. c a = c' a \<Longrightarrow>
   lineItemContents E conv c lis acc = lineItemContents E conv c' lis acc"
proof (induction lis arbitrary: acc)
  case Nil
  then show ?case by simp
next
  case (Cons li lis)
  obtain tc tn where acc: "acc = (tc, tn)" by (cases acc)
  from Cons.prems(1) have rest: "winnersBelow n0 E lis"
    and win: "\<And>p c. findLowestCostProduct E li = Inr (p, c) \<Longrightarrow>
               list_all (\<lambda>f. quantityAmount f < n0) (nutrientFacts p)"
    by (auto simp: winnersBelow_Cons)
  show ?case
  proof (cases "findLowestCostProduct E li")
    case (Inl e)
    then show ?thesis by (simp add: acc)
  next
    case (Inr w)
    obtain p cost where w: "w = (p, cost)" by (cases w)
    have eq: "map (contentOf c) (nutrientFacts p) = map (contentOf c') (nutrientFacts p)"
      using Inr w by (intro contents_cong[OF win Cons.prems(2)]) simp
    show ?thesis
      using Inr w Cons.IH[OF rest Cons.prems(2)] by (simp add: acc eq split: sum.splits)
  qed
qed

lemma lineItemLoop_refines:
  assumes helper: "GetNutrientFactInBaseUnits E = allocatingHelper conv"
  shows "ownedFrom n0 s tn \<Longrightarrow> winnersBelow n0 E lis \<Longrightarrow>
         lineItemLoop E lis (tc, tn) s = (r, s') \<Longrightarrow>
         (\<forall>a<n0. cells s' a = cells s a) \<and> allocated s \<le> allocated s' \<and>
         (case r of
            Inl e \<Rightarrow> lineItemContents E conv (cells s) lis (tc, view s tn) = Inl e
          | Inr (tc', tn') \<Rightarrow> ownedFrom n0 s' tn' \<and>
              lineItemContents E conv (cells s) lis (tc, view s tn) = Inr (tc', view s' tn'))"
proof (induction lis arbitrary: tc tn s)
  case Nil
  then show ?case by auto
next
  case (Cons li lis)
  from Cons.prems(2) have rest: "winnersBelow n0 E lis"
    and win: "\<And>p c. findLowestCostProduct E li = Inr (p, c) \<Longrightarrow>
               list_all (\<lambda>f. quantityAmount f < n0) (nutrientFacts p)"
    by (auto simp: winnersBelow_Cons)
  show ?case
  proof (cases "findLowestCostProduct E li")
    case (Inl e)
    then show ?thesis using Cons.prems(3) by auto
  next
    case (Inr w)
    obtain p cost where w: "w = (p, cost)" by (cases w)
    obtain ra sa where agg: "aggregateNutrients E tn (nutrientFacts p) s = (ra, sa)"
      by (cases "aggregateNutrients E tn (nutrientFacts p) s")
    from aggregateNutrients_refines[OF helper Cons.prems(1) win agg] Inr w
    have frame_a: "\<forall>a<n0. cells sa a = cells s a" and mono_a: "allocated s \<le> allocated sa"
      and pure_a: "case ra of
            Inl e \<Rightarrow> aggregateContents conv (view s tn) (map (contentOf (cells s)) (nutrientFacts p)) = Inl e
          | Inr obj' \<Rightarrow> ownedFrom n0 sa obj' \<and>
              aggregateContents conv (view s tn) (map (contentOf (cells s)) (nutrientFacts p))
                = Inr (view sa obj')"
      by auto
    show ?thesis
    proof (cases ra)
      case (Inl e)
      with Cons.prems(3) Inr w agg have "r = Inl e" "s' = sa" by auto
      with Inl pure_a frame_a mono_a Inr w show ?thesis by simp
    next
      case ra: (Inr tn1)
      with Cons.prems(3) Inr w agg
      have run: "lineItemLoop E lis (js_add tc cost, tn1) sa = (r, s')" by simp
      from ra pure_a have own1: "ownedFrom n0 sa tn1"
        and pure1: "aggregateContents conv (view s tn) (map (contentOf (cells s)) (nutrientFacts p))
                = Inr (view sa tn1)"
        by auto
      from Cons.IH[OF own1 rest run]
      have ih: "\<forall>a<n0. cells s' a = cells sa a" "allocated sa \<le> allocated s'"
        "case r of
            Inl e \<Rightarrow> lineItemContents E conv (cells sa) lis (js_add tc cost, view sa tn1) = Inl e
          | Inr (tc', tn') \<Rightarrow> ownedFrom n0 s' tn' \<and>
              lineItemContents E conv (cells sa) lis (js_add tc cost, view sa tn1)
                = Inr (tc', view s' tn')"
        by auto
      have same: "lineItemContents E conv (cells sa) lis (js_add tc cost, view sa tn1)
                    = lineItemContents E conv (cells s) lis (js_add tc cost, view sa tn1)"
        using rest frame_a by (rule lineItemContents_cong)
      have step: "lineItemContents E conv (cells s) (li # lis) (tc, view s tn)
                    = lineItemContents E conv (cells sa) lis (js_add tc cost, view sa tn1)"
        using Inr w pure1 same by simp
      show ?thesis
        using ih frame_a mono_a unfolding step by auto
    qed
  qed
qed

lemma update_map_values:
  "AList.update key (g v) (map (\<lambda>(k, v). (k, g v)) al)
     = map (\<lambda>(k, v). (k, g v)) (AList.update key v al)"
  by (induction al) auto

lemma map_of_map_values:
  "map_of (map (\<lambda>(k, v). (k, g v)) al) key = map_option g (map_of al key)"
  by (induction al) auto

lemma js_put_map_values:
  "js_put (map (\<lambda>(k, v). (k, g v)) al) key (g v) = map (\<lambda>(k, v). (k, g v)) (js_put al key v)"
  by (simp add: js_put_def update_map_values)

lemma Object_keys_map_values: "Object_keys (map (\<lambda>(k, v). (k, g v)) al) = Object_keys al"
proof -
  have "map fst (map (\<lambda>(k, v). (k, g v)) al) = map fst al"
    by (induction al) auto
  then show ?thesis unfolding Object_keys_def by (simp only:)
qed

lemma sortKeys_fold_map_values:
  "foldl (\<lambda>result key. case map_of (map (\<lambda>(k, v). (k, g v)) al) key of
                           Some v \<Rightarrow> js_put result key v | None \<Rightarrow> result)
     (map (\<lambda>(k, v). (k, g v)) acc) ks
   = map (\<lambda>(k, v). (k, g v))
       (foldl (\<lambda>result key. case map_of al key of
                           Some v \<Rightarrow> js_put result key v | None \<Rightarrow> result) acc ks)"
proof (induction ks arbitrary: acc)
  case Nil
  then show ?case by simp
next
  case (Cons k ks)
  show ?case
  proof (cases "map_of al k")
    case None
    then show ?thesis using Cons.IH[of acc] by (simp add: map_of_map_values)
  next
    case (Some v)
    then show ?thesis
      using Cons.IH[of "js_put acc k v"]
      by (simp add: map_of_map_values js_put_map_values)
  qed
qed

lemma sortKeys_map_values:
  "sortKeys (map (\<lambda>(k, v). (k, g v)) al) = map (\<lambda>(k, v). (k, g v)) (sortKeys al)"
  using sortKeys_fold_map_values[of g al "[]"]
  by (simp add: sortKeys_def Object_keys_map_values)

lemma view_sortKeys: "view s (sortKeys obj) = sortKeys (view s obj)"
  by (simp add: view_def sortKeys_map_values)

lemma update_subset: "set (AList.update key v al) \<subseteq> insert (key, v) (set al)"
  by (induction al) auto

lemma js_put_subset: "set (js_put obj key v) \<subseteq> insert (key, v) (set obj)"
  using update_subset[of key v obj] by (auto simp: js_put_def)

lemma sortKeys_fold_subset:
  "set acc \<subseteq> set obj \<Longrightarrow>
   set (foldl (\<lambda>result key. case map_of obj key of
                           Some v \<Rightarrow> js_put result key v | None \<Rightarrow> result) acc ks) \<subseteq> set obj"
proof (induction ks arbitrary: acc)
  case Nil
  then show ?case by simp
next
  case (Cons k ks)
  show ?case
  proof (cases "map_of obj k")
    case None
    then show ?thesis using Cons by simp
  next
    case (Some v)
    then have "(k, v) \<in> set obj" by (rule map_of_SomeD)
    with Cons.prems js_put_subset[of acc k v] have "set (js_put acc k v) \<subseteq> set obj"
      by auto
    from Cons.IH[OF this] Some show ?thesis by simp
  qed
qed

lemma sortKeys_subset: "set (sortKeys obj) \<subseteq> set obj"
  unfolding sortKeys_def by (rule sortKeys_fold_subset) simp

lemma winner_in_products:
  assumes "findLowestCostProduct E li = Inr (p, c)"
    and "GetProductsForIngredient E (ingredient li) = Inr products"
  shows "p \<in> set products"
proof -
  have run: "offerLoop E li (offersOf products) (None, Infinity) = Inr (Some p, c)"
    using assms by (rule findLowestCostProduct_InrD)
  from offerLoop_first[OF run] obtain sp
    where "find (\<lambda>(p', sp'). offerCost E li sp' = Inr c) (offersOf products) = Some (p, sp)"
    by auto
  then have "(p, sp) \<in> set (offersOf products)"
    by (auto simp: find_Some_iff in_set_conv_nth)
  then show ?thesis by (auto simp: offersOf_def)
qed

lemma findLowestCostProduct_products:
  "findLowestCostProduct E li = Inr (p, c) \<Longrightarrow>
   \<exists>products. GetProductsForIngredient E (ingredient li) = Inr products"
  by (auto simp: findLowestCostProduct_def split: sum.splits)

lemma winnersBelow_inputs:
  assumes "\<forall>lineItem \<in> set lis. \<forall>products.
             GetProductsForIngredient E (ingredient lineItem) = Inr products \<longrightarrow>
             (\<forall>p \<in> set products. \<forall>f \<in> set (nutrientFacts p). quantityAmount f < n0)"
  shows "winnersBelow n0 E lis"
  unfolding winnersBelow_def list_all_iff
proof (intro ballI allI impI)
  fix li p c f
  assume li: "li \<in> set lis" and w: "findLowestCostProduct E li = Inr (p, c)"
    and f: "f \<in> set (nutrientFacts p)"
  from findLowestCostProduct_products[OF w] obtain products
    where products: "GetProductsForIngredient E (ingredient li) = Inr products" by blast
  from winner_in_products[OF w products] have "p \<in> set products" .
  with assms li products f show "quantityAmount f < n0" by blast
qed

lemma summarizeRecipe_refines:
  assumes helper: "GetNutrientFactInBaseUnits E = allocatingHelper conv"
    and below: "winnersBelow (allocated s) E (lineItems recipe)"
    and run: "summarizeRecipe E recipe s = (r, s')"
  shows "(\<forall>a<allocated s. cells s' a = cells s a) \<and> allocated s \<le> allocated s' \<and>
         (case r of
            Inl e \<Rightarrow> summarizeContents E conv (cells s) recipe = Inl e
          | Inr summary \<Rightarrow>
              summarizeContents E conv (cells s) recipe
                = Inr (cheapestCost summary, view s' (nutrientsAtCheapestCost summary))
              \<and> list_all (\<lambda>(key, f). quantityAmount f < allocated s')
                  (nutrientsAtCheapestCost summary))"
proof -
  obtain rl sl where loop: "lineItemLoop E (lineItems recipe) (Finite 0, []) s = (rl, sl)"
    by (cases "lineItemLoop E (lineItems recipe) (Finite 0, []) s")
  have own: "ownedFrom (allocated s) s []"
    by (simp add: ownedFrom_def)
  from lineItemLoop_refines[OF helper own below loop]
  have frame: "\<forall>a<allocated s. cells sl a = cells s a" and mono: "allocated s \<le> allocated sl"
    and pure: "case rl of
            Inl e \<Rightarrow> lineItemContents E conv (cells s) (lineItems recipe) (Finite 0, view s []) = Inl e
          | Inr (tc', tn') \<Rightarrow> ownedFrom (allocated s) sl tn' \<and>
              lineItemContents E conv (cells s) (lineItems recipe) (Finite 0, view s [])
                = Inr (tc', view sl tn')"
    by auto
  have v0: "view s [] = []" by (simp add: view_def)
  show ?thesis
  proof (cases rl)
    case (Inl e)
    with run loop have "r = Inl e" "s' = sl" by (auto simp: summarizeRecipe_def)
    with Inl pure frame mono show ?thesis
      by (simp add: summarizeContents_def v0)
  next
    case (Inr acc)
    obtain tc tn where acc: "acc = (tc, tn)" by (cases acc)
    from run loop Inr acc
    have r: "r = Inr \<lparr>cheapestCost = tc, nutrientsAtCheapestCost = sortKeys tn\<rparr>" "s' = sl"
      by (auto simp: summarizeRecipe_def)
    from pure Inr acc have own': "ownedFrom (allocated s) sl tn"
      and p: "lineItemContents E conv (cells s) (lineItems recipe) (Finite 0, []) = Inr (tc, view sl tn)"
      by (auto simp: v0)
    from own' have "\<forall>(key, f) \<in> set tn. quantityAmount f < allocated sl"
      by (auto simp: ownedFrom_def list_all_iff)
    with sortKeys_subset[of tn]
    have "list_all (\<lambda>(key, f). quantityAmount f < allocated sl) (sortKeys tn)"
      by (auto simp: list_all_iff)
    with r p frame mono show ?thesis
      by (simp add: summarizeContents_def view_sortKeys)
  qed
qed

section \<open>Totals of the merge and the order of the facts\<close>

lemma sumFrom_Cons: "sumFrom x (b # bs) = sumFrom (Some (case x of None \<Rightarrow> b | Some a \<Rightarrow> js_add a b)) bs"
  by (cases x) auto













section \<open>Evaluation of the example collaborators\<close>

lemma offerCost_example [simp]:
  "offerCost (exampleCollaborators catalogue helper) (lineItemOf i a) sp = Inr (js_mul sp a)"
  by (simp add: offerCost_def calculateRealCost_def exampleCollaborators_def lineItemOf_def
      grams_def)

lemma GetProducts_example [simp]:
  "GetProductsForIngredient (exampleCollaborators catalogue helper) i = Inr (catalogue i)"
  by (simp add: exampleCollaborators_def)

lemma ingredient_lineItemOf [simp]: "ingredient (lineItemOf i a) = i"
  by (simp add: lineItemOf_def)

lemma tie_run:
  "findLowestCostProduct (exampleCollaborators tieCatalogue sameObjectHelper)
     (lineItemOf ''flour'' (Finite 2)) = Inr (productOf [Finite 3, Finite 2] [], Finite 4)"
  by (simp add: findLowestCostProduct_def tieCatalogue_def productOf_def round_double_eval)

lemma GetNutrientFactInBaseUnits_example [simp]:
  "GetNutrientFactInBaseUnits (exampleCollaborators catalogue helper) = helper"
  by (simp add: exampleCollaborators_def)

lemmas example_eval =
  summarizeRecipe_def findLowestCostProduct_def productOf_def allocatingHelper_def allocate_def
  sameObjectHelper_def js_get_def js_put_def objectPrototypeKeys_def addAmount_def storeOf_def
  sortKeys_def Object_keys_def isArrayIndex_def isDigit_def decimalValue_def grams_def
  round_double_eval

lemma scenario_run:
  "fst (summarizeRecipe (exampleCollaborators scenarioCatalogue (allocatingHelper Inr))
          scenarioRecipe scenarioStore)
   = Inr \<lparr>cheapestCost = Finite 7,
          nutrientsAtCheapestCost =
            [(''Protein'', \<lparr>nutrientName = ''Protein'', quantityAmount = 2\<rparr>)]\<rparr>"
  by (simp add: example_eval scenarioCatalogue_def scenarioRecipe_def scenarioStore_def)

lemma scenario_store:
  "cells (snd (summarizeRecipe (exampleCollaborators scenarioCatalogue (allocatingHelper Inr))
          scenarioRecipe scenarioStore)) 2 = grams (Finite 15)"
  by (simp add: example_eval scenarioCatalogue_def scenarioRecipe_def scenarioStore_def)

lemma allocatingHelper_Inr_name:
  "allocatingHelper Inr s f = (Inr bf, s1) \<Longrightarrow> nutrientName bf = nutrientName f"
  by (auto simp: allocatingHelper_def allocate_def)

section \<open>Properties of the program\<close>

text \<open>
  C1. \<open>summarizeRecipe\<close> goes through \<open>recipe.lineItems\<close> in order: when it returns a
  summary, \<open>findLowestCostProduct\<close> has returned a product and a cost for every line
  item, \<open>cheapestCost\<close> is the sum of these costs added one by one to \<open>0\<close>, and the nutrient
  object is the result of merging the nutrient facts of the winning products, one
  \<open>aggregateNutrients\<close> call per line item in the same order, into an object that starts empty
  (with its keys reordered by \<open>sortKeys\<close> at the end).
\<close>

theorem summarizeRecipe_sums_winners:
  assumes "summarizeRecipe E recipe s = (Inr summary, s')"
  shows "\<exists>winners totalNutrients.
           map (findLowestCostProduct E) (lineItems recipe) = map Inr winners
         \<and> cheapestCost summary = foldl js_add (Finite 0) (map snd winners)
         \<and> mergeGroups E [] (map (nutrientFacts \<circ> fst) winners) s = (Inr totalNutrients, s')
         \<and> nutrientsAtCheapestCost summary = sortKeys totalNutrients"
proof -
  from assms obtain totalCost totalNutrients
    where run: "lineItemLoop E (lineItems recipe) (Finite 0, []) s
                  = (Inr (totalCost, totalNutrients), s')"
      and summary: "summary = \<lparr>cheapestCost = totalCost,
                                nutrientsAtCheapestCost = sortKeys totalNutrients\<rparr>"
    by (auto simp: summarizeRecipe_def split: prod.splits sum.splits)
  from lineItemLoop_success[OF run] obtain winners
    where "map (findLowestCostProduct E) (lineItems recipe) = map Inr winners"
      "totalCost = foldl js_add (Finite 0) (map snd winners)"
      "aggregateNutrients E [] (concat (map (nutrientFacts \<circ> fst) winners)) s
         = (Inr totalNutrients, s')"
    by blast
  then show ?thesis
    using summary by (auto simp: mergeGroups_concat)
qed

theorem summarizeRecipe_sums_winners_witness:
  "fst (summarizeRecipe (exampleCollaborators scenarioCatalogue (allocatingHelper Inr))
          scenarioRecipe scenarioStore)
   = Inr \<lparr>cheapestCost = Finite 7,
          nutrientsAtCheapestCost =
            [(''Protein'', \<lparr>nutrientName = ''Protein'', quantityAmount = 2\<rparr>)]\<rparr>
   \<and> (\<exists>winners.
         map (findLowestCostProduct (exampleCollaborators scenarioCatalogue (allocatingHelper Inr)))
           [lineItemOf ''flour'' (Finite 2), lineItemOf ''milk'' (Finite 3)] = map Inr winners
       \<and> Finite 7 = foldl js_add (Finite 0) (map snd winners))"
proof -
  let ?E = "exampleCollaborators scenarioCatalogue (allocatingHelper Inr)"
  have run: "summarizeRecipe ?E scenarioRecipe scenarioStore
    = (Inr \<lparr>cheapestCost = Finite 7,
            nutrientsAtCheapestCost =
              [(''Protein'', \<lparr>nutrientName = ''Protein'', quantityAmount = 2\<rparr>)]\<rparr>,
       snd (summarizeRecipe ?E scenarioRecipe scenarioStore))"
    using scenario_run by (metis prod.collapse)
  have items: "lineItems scenarioRecipe
     = [lineItemOf ''flour'' (Finite 2), lineItemOf ''milk'' (Finite 3)]"
    by (simp add: scenarioRecipe_def)
  from summarizeRecipe_sums_winners[OF run] obtain winners
    where "map (findLowestCostProduct ?E) (lineItems scenarioRecipe) = map Inr winners"
      and "Finite 7 = foldl js_add (Finite 0) (map snd winners)"
    by auto
  then have "\<exists>winners.
         map (findLowestCostProduct ?E)
           [lineItemOf ''flour'' (Finite 2), lineItemOf ''milk'' (Finite 3)] = map Inr winners
       \<and> Finite 7 = foldl js_add (Finite 0) (map snd winners)"
    unfolding items by blast
  with scenario_run show ?thesis by blast
qed

text \<open>
  C2 (amended). When every offer of the candidate products has a real cost (no
  collaborator throws) and at least one of these costs is below \<open>Infinity\<close>,
  \<open>findLowestCostProduct\<close> returns, and the cost it returns is \<open><=\<close> the real cost of
  every offer whose real cost is not NaN.
\<close>

theorem findLowestCostProduct_lowest:
  assumes products: "GetProductsForIngredient E (ingredient lineItem) = Inr products"
    and defined: "\<forall>(p, sp) \<in> set (offersOf products). \<exists>c. offerCost E lineItem sp = Inr c"
    and below: "\<exists>(p, sp) \<in> set (offersOf products).
                  \<exists>c. offerCost E lineItem sp = Inr c \<and> js_lt c Infinity"
  shows "\<exists>product cost. findLowestCostProduct E lineItem = Inr (product, cost)
           \<and> (\<forall>(p, sp) \<in> set (offersOf products).
                 \<forall>c. offerCost E lineItem sp = Inr c \<longrightarrow> c \<noteq> NaN \<longrightarrow> js_le cost c)"
proof -
  from findLowestCostProduct_returns[OF assms] obtain product cost
    where r: "findLowestCostProduct E lineItem = Inr (product, cost)" by blast
  have run: "offerLoop E lineItem (offersOf products) (None, Infinity) = Inr (Some product, cost)"
    using r products by (rule findLowestCostProduct_InrD)
  from offerLoop_minimum[OF run]
  have "cost \<noteq> NaN"
    and "\<forall>(p, sp) \<in> set (offersOf products).
            \<forall>c. offerCost E lineItem sp = Inr c \<longrightarrow> \<not> js_lt c cost"
    by auto
  then have "\<forall>(p, sp) \<in> set (offersOf products).
                 \<forall>c. offerCost E lineItem sp = Inr c \<longrightarrow> c \<noteq> NaN \<longrightarrow> js_le cost c"
    by (auto simp: js_le_iff)
  with r show ?thesis by blast
qed

theorem findLowestCostProduct_lowest_witness:
  "\<exists>product cost.
      findLowestCostProduct (exampleCollaborators nanCatalogue sameObjectHelper)
        (lineItemOf ''flour'' (Finite 1)) = Inr (product, cost)
      \<and> js_le cost (Finite 5)"
proof -
  let ?E = "exampleCollaborators nanCatalogue sameObjectHelper"
  let ?li = "lineItemOf ''flour'' (Finite 1)"
  have offers: "offersOf (nanCatalogue ''flour'')
     = [(productOf [NaN, Finite 5] [], NaN), (productOf [NaN, Finite 5] [], Finite 5)]"
    by (simp add: offersOf_def nanCatalogue_def productOf_def)
  have h1: "GetProductsForIngredient ?E (ingredient ?li) = Inr (nanCatalogue ''flour'')"
    by simp
  have h2: "\<forall>(p, sp) \<in> set (offersOf (nanCatalogue ''flour'')). \<exists>c. offerCost ?E ?li sp = Inr c"
    by (simp add: offers)
  have h3: "\<exists>(p, sp) \<in> set (offersOf (nanCatalogue ''flour'')).
              \<exists>c. offerCost ?E ?li sp = Inr c \<and> js_lt c Infinity"
    by (simp add: offers round_double_eval)
  show ?thesis
    using findLowestCostProduct_lowest[OF h1 h2 h3] by (simp add: offers round_double_eval)
qed

text \<open>
  The statement of C2 as written fails when an offer has the real cost NaN (a cost per
  base unit computed as 0 / 0, say): of the two offers below, the second wins with the
  cost 5, and \<open>5 <= NaN\<close> is false.
\<close>

theorem findLowestCostProduct_not_below_NaN_offer:
  "offersOf (nanCatalogue ''flour'')
     = [(productOf [NaN, Finite 5] [], NaN), (productOf [NaN, Finite 5] [], Finite 5)]
   \<and> findLowestCostProduct (exampleCollaborators nanCatalogue sameObjectHelper)
        (lineItemOf ''flour'' (Finite 1)) = Inr (productOf [NaN, Finite 5] [], Finite 5)
   \<and> offerCost (exampleCollaborators nanCatalogue sameObjectHelper)
        (lineItemOf ''flour'' (Finite 1)) NaN = Inr NaN
   \<and> \<not> js_le (Finite 5) NaN"
  by (simp add: findLowestCostProduct_def offersOf_def nanCatalogue_def productOf_def
      round_double_eval)

text \<open>
  C3 (amended). \<open>findLowestCostProduct\<close> throws its "No products available" error
  exactly when the candidate products are retrieved, every offer has a real cost (no
  collaborator throws), and no offer has a real cost strictly below \<open>Infinity\<close>; this is
  so in particular when there is no candidate product. When the selection fails for a
  line item, \<open>summarizeRecipe\<close> fails and returns no summary, and it fails with that very
  error when the line items before it were processed without error.
\<close>

theorem findLowestCostProduct_NoCandidatesError:
  "(findLowestCostProduct E lineItem = Inl NoCandidatesError \<longleftrightarrow>
      (\<exists>products. GetProductsForIngredient E (ingredient lineItem) = Inr products
         \<and> (\<forall>(p, sp) \<in> set (offersOf products).
               \<exists>c. offerCost E lineItem sp = Inr c \<and> \<not> js_lt c Infinity)))
   \<and> (GetProductsForIngredient E (ingredient lineItem) = Inr [] \<longrightarrow>
        findLowestCostProduct E lineItem = Inl NoCandidatesError)
   \<and> (findLowestCostProduct E lineItem = Inl e \<longrightarrow> lineItem \<in> set (lineItems recipe) \<longrightarrow>
        (\<exists>e' s'. summarizeRecipe E recipe s = (Inl e', s')))
   \<and> (findLowestCostProduct E lineItem = Inl e \<longrightarrow>
        lineItems recipe = before @ lineItem # after \<longrightarrow>
        lineItemLoop E before (Finite 0, []) s = (Inr acc, s1) \<longrightarrow>
        summarizeRecipe E recipe s = (Inl e, s1))"
proof (intro conjI impI)
  show "findLowestCostProduct E lineItem = Inl NoCandidatesError \<longleftrightarrow>
      (\<exists>products. GetProductsForIngredient E (ingredient lineItem) = Inr products
         \<and> (\<forall>(p, sp) \<in> set (offersOf products).
               \<exists>c. offerCost E lineItem sp = Inr c \<and> \<not> js_lt c Infinity))"
    by (rule NoCandidatesError_iff_no_offer_below_Infinity)
next
  assume "GetProductsForIngredient E (ingredient lineItem) = Inr []"
  then show "findLowestCostProduct E lineItem = Inl NoCandidatesError"
    by (simp add: findLowestCostProduct_def)
next
  assume "findLowestCostProduct E lineItem = Inl e" "lineItem \<in> set (lineItems recipe)"
  then show "\<exists>e' s'. summarizeRecipe E recipe s = (Inl e', s')"
    by (rule summarizeRecipe_fails)
next
  assume "findLowestCostProduct E lineItem = Inl e"
    "lineItems recipe = before @ lineItem # after"
    "lineItemLoop E before (Finite 0, []) s = (Inr acc, s1)"
  then show "summarizeRecipe E recipe s = (Inl e, s1)"
    by (rule summarizeRecipe_fails_first)
qed

theorem findLowestCostProduct_NoCandidatesError_witness:
  "findLowestCostProduct (exampleCollaborators scenarioCatalogue (allocatingHelper Inr))
     (lineItemOf ''salt'' (Finite 1)) = Inl NoCandidatesError
   \<and> fst (summarizeRecipe (exampleCollaborators scenarioCatalogue (allocatingHelper Inr))
            saltRecipe scenarioStore) = Inl NoCandidatesError"
proof -
  let ?E = "exampleCollaborators scenarioCatalogue (allocatingHelper Inr)"
  let ?salt = "lineItemOf ''salt'' (Finite 1)"
  let ?run = "lineItemLoop ?E [lineItemOf ''flour'' (Finite 2)] (Finite 0, []) scenarioStore"
  note inst = findLowestCostProduct_NoCandidatesError
    [where E = ?E and lineItem = ?salt and e = NoCandidatesError and recipe = saltRecipe
       and s = scenarioStore and before = "[lineItemOf ''flour'' (Finite 2)]" and after = "[]"
       and ?s1.0 = "snd ?run"]
  have none: "GetProductsForIngredient ?E (ingredient ?salt) = Inr []"
    by (simp add: scenarioCatalogue_def)
  from inst none have fails: "findLowestCostProduct ?E ?salt = Inl NoCandidatesError"
    by blast
  have items: "lineItems saltRecipe = [lineItemOf ''flour'' (Finite 2)] @ ?salt # []"
    by (simp add: saltRecipe_def)
  have "\<exists>acc. fst ?run = Inr acc"
    by (simp add: example_eval scenarioCatalogue_def scenarioStore_def)
  then obtain acc where "?run = (Inr acc, snd ?run)"
    by (metis prod.collapse)
  with inst[of acc] fails items
  have "summarizeRecipe ?E saltRecipe scenarioStore = (Inl NoCandidatesError, snd ?run)"
    by blast
  with fails show ?thesis by simp
qed

text \<open>
  The statement of C3 as written fails when the only offer has the real cost
  \<open>Infinity\<close>: the ingredient has a product and an offer, and the error is thrown.
\<close>

theorem findLowestCostProduct_throws_with_Infinity_offer:
  "offersOf (infinityCatalogue ''flour'') = [(productOf [Infinity] [], Infinity)]
   \<and> findLowestCostProduct (exampleCollaborators infinityCatalogue sameObjectHelper)
        (lineItemOf ''flour'' (Finite 1)) = Inl NoCandidatesError"
  by (simp add: findLowestCostProduct_def offersOf_def infinityCatalogue_def productOf_def
      inf_of_sign_def)

text \<open>
  C4 (amended). For every incoming fact, \<open>aggregateNutrients\<close> first obtains
  \<open>baseUnitFact\<close> from the helper. If the running object has an own entry under the
  incoming fact's own \<open>nutrientName\<close>, the object is left as it is and the amount of
  \<open>baseUnitFact\<close> is added to the amount of that entry's quantity object, in place: its
  unit name and type and every other quantity object stay as they are. If it has no such
  entry and the name is not a property of \<open>Object.prototype\<close>, \<open>baseUnitFact\<close> becomes a
  new, last entry under that name. Then the remaining facts are processed.
\<close>

theorem aggregateNutrients_step:
  assumes "GetNutrientFactInBaseUnits E s newFact = (Inr baseUnitFact, s1)"
  shows "(\<forall>entry. map_of existing (nutrientName newFact) = Some entry \<longrightarrow>
            (\<exists>s2. aggregateNutrients E existing (newFact # rest) s
                     = aggregateNutrients E existing rest s2
                 \<and> uomAmount (cells s2 (quantityAmount entry))
                     = js_add (uomAmount (cells s1 (quantityAmount entry)))
                         (uomAmount (cells s1 (quantityAmount baseUnitFact)))
                 \<and> uomName (cells s2 (quantityAmount entry))
                     = uomName (cells s1 (quantityAmount entry))
                 \<and> uomType (cells s2 (quantityAmount entry))
                     = uomType (cells s1 (quantityAmount entry))
                 \<and> (\<forall>r. r \<noteq> quantityAmount entry \<longrightarrow> cells s2 r = cells s1 r)
                 \<and> allocated s2 = allocated s1))
       \<and> (map_of existing (nutrientName newFact) = None \<longrightarrow>
            nutrientName newFact \<notin> set objectPrototypeKeys \<longrightarrow>
            aggregateNutrients E existing (newFact # rest) s
              = aggregateNutrients E (existing @ [(nutrientName newFact, baseUnitFact)]) rest s1)"
proof (intro conjI allI impI)
  fix entry
  assume own: "map_of existing (nutrientName newFact) = Some entry"
  let ?s2 = "addAmount s1 (quantityAmount entry) (quantityAmount baseUnitFact)"
  have "aggregateNutrients E existing (newFact # rest) s = aggregateNutrients E existing rest ?s2"
    using assms own by (rule aggregateNutrients_Own)
  then show "\<exists>s2. aggregateNutrients E existing (newFact # rest) s
                     = aggregateNutrients E existing rest s2
                 \<and> uomAmount (cells s2 (quantityAmount entry))
                     = js_add (uomAmount (cells s1 (quantityAmount entry)))
                         (uomAmount (cells s1 (quantityAmount baseUnitFact)))
                 \<and> uomName (cells s2 (quantityAmount entry))
                     = uomName (cells s1 (quantityAmount entry))
                 \<and> uomType (cells s2 (quantityAmount entry))
                     = uomType (cells s1 (quantityAmount entry))
                 \<and> (\<forall>r. r \<noteq> quantityAmount entry \<longrightarrow> cells s2 r = cells s1 r)
                 \<and> allocated s2 = allocated s1"
    by (intro exI[of _ ?s2]) (simp add: addAmount_cells)
next
  assume "map_of existing (nutrientName newFact) = None"
    "nutrientName newFact \<notin> set objectPrototypeKeys"
  with assms show "aggregateNutrients E existing (newFact # rest) s
              = aggregateNutrients E (existing @ [(nutrientName newFact, baseUnitFact)]) rest s1"
    by (rule aggregateNutrients_Undefined)
qed

theorem aggregateNutrients_step_witness:
  "fst (aggregateNutrients (exampleCollaborators scenarioCatalogue (allocatingHelper Inr))
          proteinEntry [\<lparr>nutrientName = ''Protein'', quantityAmount = 1\<rparr>] scenarioStore)
     = Inr proteinEntry
   \<and> cells (snd (aggregateNutrients (exampleCollaborators scenarioCatalogue (allocatingHelper Inr))
          proteinEntry [\<lparr>nutrientName = ''Protein'', quantityAmount = 1\<rparr>] scenarioStore)) 0
     = grams (Finite 15)
   \<and> fst (aggregateNutrients (exampleCollaborators scenarioCatalogue (allocatingHelper Inr))
          [] [\<lparr>nutrientName = ''Protein'', quantityAmount = 1\<rparr>] scenarioStore)
     = Inr [(''Protein'', \<lparr>nutrientName = ''Protein'', quantityAmount = 2\<rparr>)]"
proof -
  let ?E = "exampleCollaborators scenarioCatalogue (allocatingHelper Inr)"
  let ?f = "\<lparr>nutrientName = ''Protein'', quantityAmount = 1\<rparr>"
  let ?bf = "\<lparr>nutrientName = ''Protein'', quantityAmount = 2\<rparr>"
  have "\<exists>s1. GetNutrientFactInBaseUnits ?E scenarioStore ?f = (Inr ?bf, s1)
          \<and> cells s1 0 = grams (Finite 5) \<and> cells s1 2 = grams (Finite 10)"
    by (simp add: allocatingHelper_def allocate_def scenarioStore_def storeOf_def)
  then obtain s1 where helper: "GetNutrientFactInBaseUnits ?E scenarioStore ?f = (Inr ?bf, s1)"
    and s1: "cells s1 0 = grams (Finite 5)" "cells s1 2 = grams (Finite 10)"
    by blast
  have own: "map_of proteinEntry (nutrientName ?f)
               = Some \<lparr>nutrientName = ''Protein'', quantityAmount = 0\<rparr>"
    by (simp add: proteinEntry_def)
  from aggregateNutrients_step[OF helper, of proteinEntry "[]"] own
  obtain s2 where
    run: "aggregateNutrients ?E proteinEntry [?f] scenarioStore
            = aggregateNutrients ?E proteinEntry [] s2"
    and amount: "uomAmount (cells s2 0)
            = js_add (uomAmount (cells s1 0)) (uomAmount (cells s1 2))"
    and name: "uomName (cells s2 0) = uomName (cells s1 0)"
    and type: "uomType (cells s2 0) = uomType (cells s1 0)"
    by auto
  have "cells s2 0 = grams (Finite 15)"
    using amount name type
    by (intro UnitOfMeasure.equality) (simp_all add: s1 grams_def round_double_eval)
  with run have added:
    "fst (aggregateNutrients ?E proteinEntry [?f] scenarioStore) = Inr proteinEntry"
    "cells (snd (aggregateNutrients ?E proteinEntry [?f] scenarioStore)) 0 = grams (Finite 15)"
    by simp_all
  have absent: "map_of [] (nutrientName ?f) = (None :: NutrientFact option)"
    "nutrientName ?f \<notin> set objectPrototypeKeys"
    by (simp_all add: objectPrototypeKeys_def)
  from aggregateNutrients_step[OF helper, of "[]" "[]"] absent
  have "aggregateNutrients ?E [] [?f] scenarioStore
          = aggregateNutrients ?E ([] @ [(nutrientName ?f, ?bf)]) [] s1"
    by blast
  then have "fst (aggregateNutrients ?E [] [?f] scenarioStore) = Inr [(''Protein'', ?bf)]"
    by simp
  with added show ?thesis by blast
qed

text \<open>
  The statement of C4 as written fails when the helper changes the name: the base-unit
  fact of the incoming fact ''Eiweiss'' is named ''Protein'' and the running object has
  an entry ''Protein'', yet nothing is added to that entry; the fact is stored as a new
  entry under ''Eiweiss''. It also fails, with a helper that keeps the names, for a
  fact named ''toString'' and an empty running object: nothing is inserted, line 56
  throws.
\<close>

theorem aggregateNutrients_looks_up_incoming_name:
  "fst (GetNutrientFactInBaseUnits
          (exampleCollaborators scenarioCatalogue (allocatingHelper (renameTo ''Protein'')))
          scenarioStore \<lparr>nutrientName = ''Eiweiss'', quantityAmount = 1\<rparr>)
     = Inr \<lparr>nutrientName = ''Protein'', quantityAmount = 2\<rparr>
   \<and> map_of proteinEntry ''Protein'' = Some \<lparr>nutrientName = ''Protein'', quantityAmount = 0\<rparr>
   \<and> fst (aggregateNutrients
          (exampleCollaborators scenarioCatalogue (allocatingHelper (renameTo ''Protein'')))
          proteinEntry [\<lparr>nutrientName = ''Eiweiss'', quantityAmount = 1\<rparr>] scenarioStore)
     = Inr [(''Protein'', \<lparr>nutrientName = ''Protein'', quantityAmount = 0\<rparr>),
            (''Eiweiss'', \<lparr>nutrientName = ''Protein'', quantityAmount = 2\<rparr>)]
   \<and> cells (snd (aggregateNutrients
          (exampleCollaborators scenarioCatalogue (allocatingHelper (renameTo ''Protein'')))
          proteinEntry [\<lparr>nutrientName = ''Eiweiss'', quantityAmount = 1\<rparr>] scenarioStore)) 0
     = grams (Finite 5)
   \<and> fst (GetNutrientFactInBaseUnits
          (exampleCollaborators scenarioCatalogue (allocatingHelper Inr))
          scenarioStore \<lparr>nutrientName = ''toString'', quantityAmount = 1\<rparr>)
     = Inr \<lparr>nutrientName = ''toString'', quantityAmount = 2\<rparr>
   \<and> fst (aggregateNutrients
          (exampleCollaborators scenarioCatalogue (allocatingHelper Inr))
          [] [\<lparr>nutrientName = ''toString'', quantityAmount = 1\<rparr>] scenarioStore)
     = Inl TypeError"
  by (simp add: example_eval renameTo_def proteinEntry_def scenarioStore_def)




text \<open>
  C6. The claim fails on the program for nutrient names that are array indices: the
  winning product below has the facts ''9'' and ''10''. \<open>sortKeys\<close> orders the two keys
  as strings, ''10'' before ''9'', and assigns them in that order, but an object
  enumerates its array-index keys first and in numeric order, whatever the order of
  assignment: the keys of the returned object are ''9'', ''10'', which is not ascending
  in the lexicographic order. (When no nutrient name is an array index the keys are in
  ascending order: \<open>summarizeRecipe_sorted_keys\<close>.)
\<close>

theorem summarizeRecipe_keys_not_sorted:
  "map_sum id (Object_keys \<circ> nutrientsAtCheapestCost)
     (fst (summarizeRecipe (exampleCollaborators numberedCatalogue (allocatingHelper Inr))
             numberedRecipe scenarioStore))
     = Inr [''9'', ''10'']
   \<and> ''10'' < ''9''
   \<and> \<not> sorted [''9'', ''10'']"
  by (simp add: example_eval numberedCatalogue_def numberedRecipe_def scenarioStore_def)

text \<open>
  C7. \<open>findLowestCostProduct\<close> keeps the minimum with the strict comparison \<open><\<close>: the
  cost it returns is not undercut by any offer, and the product it returns is the owner
  of the first offer, in the iteration order of products and then supplier products,
  whose real cost is that minimum.
\<close>

theorem findLowestCostProduct_first_seen_wins:
  assumes "findLowestCostProduct E lineItem = Inr (product, cost)"
    and "GetProductsForIngredient E (ingredient lineItem) = Inr products"
  shows "(\<forall>(p, sp) \<in> set (offersOf products).
            \<forall>c. offerCost E lineItem sp = Inr c \<longrightarrow> \<not> js_lt c cost)
         \<and> (\<exists>sp. find (\<lambda>(p, sp). offerCost E lineItem sp = Inr cost) (offersOf products)
                   = Some (product, sp))"
proof -
  have run: "offerLoop E lineItem (offersOf products) (None, Infinity) = Inr (Some product, cost)"
    using assms by (rule findLowestCostProduct_InrD)
  have "\<forall>(p, sp) \<in> set (offersOf products).
            \<forall>c. offerCost E lineItem sp = Inr c \<longrightarrow> \<not> js_lt c cost"
    using offerLoop_minimum[OF run] by simp
  moreover have "\<exists>sp. find (\<lambda>(p, sp). offerCost E lineItem sp = Inr cost) (offersOf products)
                   = Some (product, sp)"
    using offerLoop_first[OF run] by auto
  ultimately show ?thesis by blast
qed

theorem findLowestCostProduct_first_seen_wins_witness:
  "findLowestCostProduct (exampleCollaborators tieCatalogue sameObjectHelper)
     (lineItemOf ''flour'' (Finite 2)) = Inr (productOf [Finite 3, Finite 2] [], Finite 4)
   \<and> offersOf (tieCatalogue ''flour'')
       = [(productOf [Finite 3, Finite 2] [], Finite 3),
          (productOf [Finite 3, Finite 2] [], Finite 2),
          (productOf [Finite 2] [], Finite 2)]
   \<and> (\<exists>sp. find (\<lambda>(p, sp). offerCost (exampleCollaborators tieCatalogue sameObjectHelper)
                              (lineItemOf ''flour'' (Finite 2)) sp = Inr (Finite 4))
               (offersOf (tieCatalogue ''flour''))
             = Some (productOf [Finite 3, Finite 2] [], sp))"
proof -
  have offers: "offersOf (tieCatalogue ''flour'')
       = [(productOf [Finite 3, Finite 2] [], Finite 3),
          (productOf [Finite 3, Finite 2] [], Finite 2),
          (productOf [Finite 2] [], Finite 2)]"
    by (simp add: offersOf_def tieCatalogue_def productOf_def)
  show ?thesis
    using findLowestCostProduct_first_seen_wins[OF tie_run, of "tieCatalogue ''flour''"] tie_run offers
    by simp
qed

text \<open>
  C8 (amended). When \<open>GetNutrientFactInBaseUnits\<close> computes the fact it returns from
  the incoming fact and gives it a newly created quantity object, and the nutrient facts
  of the candidate products refer to quantity objects that exist when \<open>summarizeRecipe\<close>
  is called, then \<open>summarizeRecipe\<close> changes no quantity object that existed before the
  call (the recipe, the products and the facts are values and are never written), and a
  second call, made after the first, behaves like the first: it fails with the same
  error, or it returns a summary with the same cost and a nutrient object with the same
  keys, names and quantities, and leaves the summary of the first call as it was.
\<close>

theorem summarizeRecipe_repeatable:
  assumes helper: "GetNutrientFactInBaseUnits E = allocatingHelper conv"
    and inputs: "\<forall>lineItem \<in> set (lineItems recipe). \<forall>products.
             GetProductsForIngredient E (ingredient lineItem) = Inr products \<longrightarrow>
             (\<forall>p \<in> set products. \<forall>f \<in> set (nutrientFacts p). quantityAmount f < allocated s)"
    and first: "summarizeRecipe E recipe s = (r1, s1)"
    and second: "summarizeRecipe E recipe s1 = (r2, s2)"
  shows "(\<forall>a<allocated s. cells s1 a = cells s a \<and> cells s2 a = cells s a)
       \<and> (case r1 of
            Inl e \<Rightarrow> r2 = Inl e
          | Inr summary1 \<Rightarrow>
              (\<exists>summary2. r2 = Inr summary2
                 \<and> cheapestCost summary2 = cheapestCost summary1
                 \<and> view s2 (nutrientsAtCheapestCost summary2)
                     = view s1 (nutrientsAtCheapestCost summary1)
                 \<and> view s2 (nutrientsAtCheapestCost summary1)
                     = view s1 (nutrientsAtCheapestCost summary1)))"
proof -
  have below: "winnersBelow (allocated s) E (lineItems recipe)"
    using inputs by (rule winnersBelow_inputs)
  from summarizeRecipe_refines[OF helper below first]
  have frame1: "\<forall>a<allocated s. cells s1 a = cells s a" and mono1: "allocated s \<le> allocated s1"
    and pure1: "case r1 of
            Inl e \<Rightarrow> summarizeContents E conv (cells s) recipe = Inl e
          | Inr summary \<Rightarrow>
              summarizeContents E conv (cells s) recipe
                = Inr (cheapestCost summary, view s1 (nutrientsAtCheapestCost summary))
              \<and> list_all (\<lambda>(key, f). quantityAmount f < allocated s1)
                  (nutrientsAtCheapestCost summary)"
    by auto
  have below1: "winnersBelow (allocated s1) E (lineItems recipe)"
    using below mono1 by (rule winnersBelow_mono)
  from summarizeRecipe_refines[OF helper below1 second]
  have frame2: "\<forall>a<allocated s1. cells s2 a = cells s1 a"
    and pure2: "case r2 of
            Inl e \<Rightarrow> summarizeContents E conv (cells s1) recipe = Inl e
          | Inr summary \<Rightarrow>
              summarizeContents E conv (cells s1) recipe
                = Inr (cheapestCost summary, view s2 (nutrientsAtCheapestCost summary))
              \<and> list_all (\<lambda>(key, f). quantityAmount f < allocated s2)
                  (nutrientsAtCheapestCost summary)"
    by auto
  have same: "summarizeContents E conv (cells s1) recipe = summarizeContents E conv (cells s) recipe"
    using lineItemContents_cong[OF below frame1, of conv]
    by (simp add: summarizeContents_def)
  have frame: "\<forall>a<allocated s. cells s1 a = cells s a \<and> cells s2 a = cells s a"
    using frame1 frame2 mono1 by auto
  have results: "case r1 of
            Inl e \<Rightarrow> r2 = Inl e
          | Inr summary1 \<Rightarrow>
              (\<exists>summary2. r2 = Inr summary2
                 \<and> cheapestCost summary2 = cheapestCost summary1
                 \<and> view s2 (nutrientsAtCheapestCost summary2)
                     = view s1 (nutrientsAtCheapestCost summary1)
                 \<and> view s2 (nutrientsAtCheapestCost summary1)
                     = view s1 (nutrientsAtCheapestCost summary1))"
  proof (cases r1)
    case (Inl e)
    with pure1 pure2 same show ?thesis
      by (cases r2) auto
  next
    case (Inr summary1)
    with pure1 have p1: "summarizeContents E conv (cells s) recipe
                = Inr (cheapestCost summary1, view s1 (nutrientsAtCheapestCost summary1))"
      and old: "list_all (\<lambda>(key, f). quantityAmount f < allocated s1)
                  (nutrientsAtCheapestCost summary1)"
      by auto
    have kept: "view s2 (nutrientsAtCheapestCost summary1)
                  = view s1 (nutrientsAtCheapestCost summary1)"
      using old frame2 by (intro view_cong) (auto simp: list_all_iff)
    from p1 pure2 same obtain summary2 where "r2 = Inr summary2"
      "cheapestCost summary2 = cheapestCost summary1"
      "view s2 (nutrientsAtCheapestCost summary2) = view s1 (nutrientsAtCheapestCost summary1)"
      by (cases r2) auto
    with kept Inr show ?thesis by simp
  qed
  from frame results show ?thesis by blast
qed

theorem summarizeRecipe_repeatable_witness:
  "cells (snd (summarizeRecipe (exampleCollaborators scenarioCatalogue (allocatingHelper Inr))
                 scenarioRecipe scenarioStore)) 0 = grams (Finite 5)
   \<and> (\<exists>summary2.
        fst (summarizeRecipe (exampleCollaborators scenarioCatalogue (allocatingHelper Inr))
               scenarioRecipe
               (snd (summarizeRecipe (exampleCollaborators scenarioCatalogue (allocatingHelper Inr))
                       scenarioRecipe scenarioStore)))
          = Inr summary2
        \<and> cheapestCost summary2 = Finite 7
        \<and> view (snd (summarizeRecipe
                        (exampleCollaborators scenarioCatalogue (allocatingHelper Inr))
                        scenarioRecipe
                        (snd (summarizeRecipe
                                (exampleCollaborators scenarioCatalogue (allocatingHelper Inr))
                                scenarioRecipe scenarioStore))))
            (nutrientsAtCheapestCost summary2)
          = [(''Protein'', ''Protein'', grams (Finite 15))])"
proof -
  let ?E = "exampleCollaborators scenarioCatalogue (allocatingHelper Inr)"
  let ?summary1 = "\<lparr>cheapestCost = Finite 7,
          nutrientsAtCheapestCost =
            [(''Protein'', \<lparr>nutrientName = ''Protein'', quantityAmount = 2\<rparr>)]\<rparr>"
  let ?s1 = "snd (summarizeRecipe ?E scenarioRecipe scenarioStore)"
  let ?r2 = "fst (summarizeRecipe ?E scenarioRecipe ?s1)"
  let ?s2 = "snd (summarizeRecipe ?E scenarioRecipe ?s1)"
  have helper: "GetNutrientFactInBaseUnits ?E = allocatingHelper Inr"
    by simp
  have inputs: "\<forall>lineItem \<in> set (lineItems scenarioRecipe). \<forall>products.
             GetProductsForIngredient ?E (ingredient lineItem) = Inr products \<longrightarrow>
             (\<forall>p \<in> set products. \<forall>f \<in> set (nutrientFacts p).
                quantityAmount f < allocated scenarioStore)"
    by (auto simp: scenarioRecipe_def scenarioCatalogue_def scenarioStore_def storeOf_def
        productOf_def)
  have first: "summarizeRecipe ?E scenarioRecipe scenarioStore = (Inr ?summary1, ?s1)"
    using scenario_run by (metis prod.collapse)
  have second: "summarizeRecipe ?E scenarioRecipe ?s1 = (?r2, ?s2)"
    by simp
  have s0: "cells scenarioStore 0 = grams (Finite 5)" "0 < allocated scenarioStore"
    by (simp_all add: scenarioStore_def storeOf_def)
  have v1: "view ?s1 (nutrientsAtCheapestCost ?summary1)
              = [(''Protein'', ''Protein'', grams (Finite 15))]"
    using scenario_store by (simp add: view_def contentOf_def)
  from summarizeRecipe_repeatable[OF helper inputs first second]
  have "\<forall>a<allocated scenarioStore. cells ?s1 a = cells scenarioStore a"
    and "\<exists>summary2. ?r2 = Inr summary2
           \<and> cheapestCost summary2 = cheapestCost ?summary1
           \<and> view ?s2 (nutrientsAtCheapestCost summary2)
               = view ?s1 (nutrientsAtCheapestCost ?summary1)"
    by auto
  then show ?thesis
    using s0 v1 by auto
qed

text \<open>
  The statement of C8 as written fails when the helper returns the fact it was given: the
  running object then holds the quantity object of the first product's protein fact, and
  line 56 adds the second amount to it. The first call changes this input quantity from
  5 to 15, and the second call, on the same recipe and products, reports 25 where the
  first reported 15.
\<close>

theorem summarizeRecipe_changes_input_quantity:
  "cells scenarioStore 0 = grams (Finite 5)
   \<and> fst (summarizeRecipe (exampleCollaborators scenarioCatalogue sameObjectHelper)
            scenarioRecipe scenarioStore)
       = Inr \<lparr>cheapestCost = Finite 7,
              nutrientsAtCheapestCost =
                [(''Protein'', \<lparr>nutrientName = ''Protein'', quantityAmount = 0\<rparr>)]\<rparr>
   \<and> cells (snd (summarizeRecipe (exampleCollaborators scenarioCatalogue sameObjectHelper)
                   scenarioRecipe scenarioStore)) 0
       = grams (Finite 15)
   \<and> fst (summarizeRecipe (exampleCollaborators scenarioCatalogue sameObjectHelper)
            scenarioRecipe
            (snd (summarizeRecipe (exampleCollaborators scenarioCatalogue sameObjectHelper)
                    scenarioRecipe scenarioStore)))
       = Inr \<lparr>cheapestCost = Finite 7,
              nutrientsAtCheapestCost =
                [(''Protein'', \<lparr>nutrientName = ''Protein'', quantityAmount = 0\<rparr>)]\<rparr>
   \<and> cells (snd (summarizeRecipe (exampleCollaborators scenarioCatalogue sameObjectHelper)
                   scenarioRecipe
                   (snd (summarizeRecipe (exampleCollaborators scenarioCatalogue sameObjectHelper)
                           scenarioRecipe scenarioStore)))) 0
       = grams (Finite 25)"
  by (simp add: example_eval scenarioCatalogue_def scenarioRecipe_def scenarioStore_def)

text \<open>
  C9. A recipe without line items is summarized to the cost \<open>0\<close> and the empty nutrient
  object, and the call succeeds.
\<close>

theorem summarizeRecipe_no_lineItems:
  "lineItems recipe = [] \<Longrightarrow>
   summarizeRecipe E recipe s
     = (Inr \<lparr>cheapestCost = Finite 0, nutrientsAtCheapestCost = []\<rparr>, s)"
  by (simp add: summarizeRecipe_def sortKeys_def Object_keys_def)

theorem summarizeRecipe_no_lineItems_witness:
  "lineItems \<lparr>recipeName = ''water'', lineItems = []\<rparr> = ([] :: string RecipeLineItem list)
   \<and> summarizeRecipe (exampleCollaborators tieCatalogue sameObjectHelper)
       \<lparr>recipeName = ''water'', lineItems = []\<rparr> (storeOf [])
     = (Inr \<lparr>cheapestCost = Finite 0, nutrientsAtCheapestCost = []\<rparr>, storeOf [])"
  using summarizeRecipe_no_lineItems
    [of "\<lparr>recipeName = ''water'', lineItems = []\<rparr>"
        "exampleCollaborators tieCatalogue sameObjectHelper" "storeOf []"]
  by simp

text \<open>
  C10. The claim fails on the program for a fact whose \<open>nutrientName\<close> is the name of a
  property of \<open>Object.prototype\<close>. The test of line 55 is meant to find out whether the
  running object has an entry under the incoming name, but it reads the property through
  the prototype chain: for the name ''toString'' it finds the inherited function, also
  when the running object has no entry of that name. The fact is then not inserted under
  its name; line 56 reads \<open>quantityAmount\<close> of the function, which is undefined, and
  throws. Below, the running object has the one entry ''Protein''; a fact named
  ''Fibre'' is inserted under its name with the converted fact as the value, as the
  claim says, and a fact named ''toString'' makes the call throw, with a helper that
  keeps the name as with one that changes it.
\<close>

theorem aggregateNutrients_throws_on_inherited_name:
  "map_of proteinEntry ''toString'' = None
   \<and> js_get proteinEntry ''toString'' = Inherited
   \<and> fst (aggregateNutrients
          (exampleCollaborators scenarioCatalogue (allocatingHelper Inr))
          proteinEntry [\<lparr>nutrientName = ''Fibre'', quantityAmount = 1\<rparr>] scenarioStore)
     = Inr [(''Protein'', \<lparr>nutrientName = ''Protein'', quantityAmount = 0\<rparr>),
            (''Fibre'', \<lparr>nutrientName = ''Fibre'', quantityAmount = 2\<rparr>)]
   \<and> fst (GetNutrientFactInBaseUnits
          (exampleCollaborators scenarioCatalogue (allocatingHelper Inr))
          scenarioStore \<lparr>nutrientName = ''toString'', quantityAmount = 1\<rparr>)
     = Inr \<lparr>nutrientName = ''toString'', quantityAmount = 2\<rparr>
   \<and> fst (aggregateNutrients
          (exampleCollaborators scenarioCatalogue (allocatingHelper Inr))
          proteinEntry [\<lparr>nutrientName = ''toString'', quantityAmount = 1\<rparr>] scenarioStore)
     = Inl TypeError
   \<and> fst (GetNutrientFactInBaseUnits
          (exampleCollaborators scenarioCatalogue
             (allocatingHelper (renameOnly ''toString'' ''x'')))
          scenarioStore \<lparr>nutrientName = ''toString'', quantityAmount = 1\<rparr>)
     = Inr \<lparr>nutrientName = ''x'', quantityAmount = 2\<rparr>
   \<and> fst (aggregateNutrients
          (exampleCollaborators scenarioCatalogue
             (allocatingHelper (renameOnly ''toString'' ''x'')))
          proteinEntry [\<lparr>nutrientName = ''toString'', quantityAmount = 1\<rparr>] scenarioStore)
     = Inl TypeError"
  by (simp add: example_eval renameOnly_def proteinEntry_def scenarioStore_def)

text \<open>
  Since a fact with such a name is never stored, the equivalence of the claim fails as
  well: the helper that renames only the facts named ''toString'' does not keep every
  \<open>nutrientName\<close>, and still every key of the running object is the \<open>nutrientName\<close> of
  the fact stored under it, on all inputs. Had the fact been inserted under ''toString''
  as the claim describes, its value would be named ''x'' and the invariant would be
  broken.
\<close>

lemma keysMatch_kept_by_helper_renaming_toString:
  "(\<forall>existing facts s existing' s'.
      keysMatch existing \<longrightarrow>
      aggregateNutrients
        (exampleCollaborators scenarioCatalogue (allocatingHelper (renameOnly ''toString'' ''x'')))
        existing facts s = (Inr existing', s') \<longrightarrow>
      keysMatch existing')
   \<and> fst (GetNutrientFactInBaseUnits
        (exampleCollaborators scenarioCatalogue (allocatingHelper (renameOnly ''toString'' ''x'')))
        scenarioStore \<lparr>nutrientName = ''toString'', quantityAmount = 0\<rparr>)
     = Inr \<lparr>nutrientName = ''x'', quantityAmount = 2\<rparr>"
proof -
  let ?E = "exampleCollaborators scenarioCatalogue (allocatingHelper (renameOnly ''toString'' ''x''))"
  have "\<forall>s f bf s1. nutrientName f \<notin> set objectPrototypeKeys \<longrightarrow>
              GetNutrientFactInBaseUnits ?E s f = (Inr bf, s1) \<longrightarrow>
              nutrientName bf = nutrientName f"
    by (auto simp: allocatingHelper_def allocate_def renameOnly_def objectPrototypeKeys_def)
  then have "\<forall>existing facts s existing' s'.
      keysMatch existing \<longrightarrow> aggregateNutrients ?E existing facts s = (Inr existing', s') \<longrightarrow>
      keysMatch existing'"
    using keysMatch_preserved_iff[of ?E] by blast
  moreover have "fst (GetNutrientFactInBaseUnits ?E scenarioStore
        \<lparr>nutrientName = ''toString'', quantityAmount = 0\<rparr>)
     = Inr \<lparr>nutrientName = ''x'', quantityAmount = 2\<rparr>"
    by (simp add: allocatingHelper_def allocate_def renameOnly_def scenarioStore_def storeOf_def)
  ultimately show ?thesis by blast
qed

text \<open>
  For names that are not properties of \<open>Object.prototype\<close> the program does what the
  claim says: a new fact is inserted under the incoming name with the converted fact as
  the value (\<open>aggregateNutrients_single_new\<close>), and a helper that keeps the names of
  these facts keeps the invariant (\<open>aggregateNutrients_keysMatch\<close>).
\<close>

end
